theory Spec2Isabelle
  imports Complex_Main
begin

section \<open>Numeric values\<close>

text \<open>
  The program computes with Python floats and numpy \<open>float64\<close> arrays. The model takes a
  finite float to be the real number it stands for, and an operation on finite values to
  be the exact operation on reals: the rounding of a result to the nearest double, its
  overflow and the sign of zero are not modelled. Rounding is modelled in the three
  places where it decides what the program does next rather than the last digits of a
  number: the threshold \<open>10**-5\<close> is the double it is, the sum \<open>n + 1\<close> of the power law
  is the double \<open>n\<close> for a large \<open>n\<close>, and a product whose sign selects the devices to
  pulse is zero when it underflows. The values numpy produces where real arithmetic has
  none are kept as values of their own, since numpy returns them (with a warning) instead
  of raising: \<open>0.0 ** y\<close> with \<open>y < 0\<close> is \<open>inf\<close>, a negative base with a fractional exponent
  gives \<open>nan\<close>, \<open>1.0 / 0.0\<close> is \<open>inf\<close>.
\<close>

datatype npfloat = Fin real | PInf | NInf | NaN

datatype py_error = ValueError | IndexError | ZeroDivisionError

fun np_neg :: "npfloat \<Rightarrow> npfloat" where
  "np_neg (Fin x) = Fin (- x)"
| "np_neg PInf = NInf"
| "np_neg NInf = PInf"
| "np_neg NaN = NaN"

fun np_add :: "npfloat \<Rightarrow> npfloat \<Rightarrow> npfloat" where
  "np_add (Fin x) (Fin y) = Fin (x + y)"
| "np_add NaN _ = NaN"
| "np_add _ NaN = NaN"
| "np_add PInf NInf = NaN"
| "np_add NInf PInf = NaN"
| "np_add PInf _ = PInf"
| "np_add _ PInf = PInf"
| "np_add NInf _ = NInf"
| "np_add _ NInf = NInf"

definition np_sub :: "npfloat \<Rightarrow> npfloat \<Rightarrow> npfloat" where
  "np_sub x y = np_add x (np_neg y)"

fun np_mul :: "npfloat \<Rightarrow> npfloat \<Rightarrow> npfloat" where
  "np_mul (Fin x) (Fin y) = Fin (x * y)"
| "np_mul NaN _ = NaN"
| "np_mul _ NaN = NaN"
| "np_mul PInf (Fin y) = (if y = 0 then NaN else if 0 < y then PInf else NInf)"
| "np_mul NInf (Fin y) = (if y = 0 then NaN else if 0 < y then NInf else PInf)"
| "np_mul (Fin x) PInf = (if x = 0 then NaN else if 0 < x then PInf else NInf)"
| "np_mul (Fin x) NInf = (if x = 0 then NaN else if 0 < x then NInf else PInf)"
| "np_mul PInf PInf = PInf"
| "np_mul NInf NInf = PInf"
| "np_mul PInf NInf = NInf"
| "np_mul NInf PInf = NInf"

fun np_div :: "npfloat \<Rightarrow> npfloat \<Rightarrow> npfloat" where
  "np_div (Fin x) (Fin y) =
     (if y \<noteq> 0 then Fin (x / y)
      else if x = 0 then NaN else if 0 < x then PInf else NInf)"
| "np_div NaN _ = NaN"
| "np_div _ NaN = NaN"
| "np_div (Fin x) _ = Fin 0"
| "np_div PInf (Fin y) = (if 0 \<le> y then PInf else NInf)"
| "np_div NInf (Fin y) = (if 0 \<le> y then NInf else PInf)"
| "np_div _ _ = NaN"

text \<open>
  \<open>x ** y\<close> for a float exponent \<open>y\<close>, after C's \<open>pow\<close>: a positive base is the real power;
  a zero base gives \<open>inf\<close> for a negative exponent; a negative base is defined for integral
  exponents only.
\<close>

fun np_pow :: "npfloat \<Rightarrow> real \<Rightarrow> npfloat" where
  "np_pow (Fin x) y =
     (if y = 0 then Fin 1
      else if 0 < x then Fin (x powr y)
      else if x = 0 then (if y < 0 then PInf else Fin 0)
      else if y \<in> \<int> then Fin ((if even \<lfloor>y\<rfloor> then 1 else - 1) * ((- x) powr y))
      else NaN)"
| "np_pow PInf y = (if y = 0 then Fin 1 else if y < 0 then Fin 0 else PInf)"
| "np_pow NInf y =
     (if y = 0 then Fin 1 else if y < 0 then Fin 0
      else if y \<in> \<int> \<and> odd \<lfloor>y\<rfloor> then NInf else PInf)"
| "np_pow NaN y = (if y = 0 then Fin 1 else NaN)"

section \<open>The device model of \<open>memristor_nengo/learning_rules.py\<close>\<close>

text \<open>
  The constants that \<open>step_simmpes\<close> binds before it computes: the exponent \<open>a\<close> of the
  power law, the resistance bounds \<open>r_min = 1e2\<close> and \<open>r_max = 2.5e8\<close>, and the gain
  \<open>1e6\<close> of the weight.
\<close>

definition a_exp :: real where "a_exp = - 0.1802"
definition r_min :: real where "r_min = 100"
definition r_max :: real where "r_max = 250000000"
definition g_min :: real where "g_min = 1.0 / r_max"
definition g_max :: real where "g_max = 1.0 / r_min"
definition gain :: real where "gain = 1000000"

text \<open>
  One pulse on a device of resistance \<open>R\<close>, as \<open>step_simmpes\<close> writes it for the selected
  entries:
  \<^verbatim>\<open>n_pos = ((pos_memristors[ V > 0 ] - r_min) / r_max)**(1 / a)\<close> and
  \<^verbatim>\<open>pos_memristors[ V > 0 ] = r_min + r_max * (n_pos + 1)**a\<close>.

  The sum \<open>n_pos + 1\<close> is a sum of doubles. From \<open>2 ** 54\<close> on, neighbouring doubles are at
  least \<open>4\<close> apart, so the sum rounds back to \<open>n_pos\<close>: the increment is lost. Below, the
  sum is taken exactly (between \<open>2 ** 53\<close> and \<open>2 ** 54\<close> the double sum is \<open>n_pos\<close> or
  \<open>n_pos + 2\<close>, below \<open>2 ** 53\<close> it is \<open>n_pos + 1\<close> up to rounding).
\<close>

definition pulse_number :: "npfloat \<Rightarrow> npfloat" where
  "pulse_number R = np_pow (np_div (np_sub R (Fin r_min)) (Fin r_max)) (1 / a_exp)"

definition add_one :: "npfloat \<Rightarrow> npfloat" where
  "add_one n =
     (case n of
        Fin x \<Rightarrow> if 2 ^ 54 \<le> \<bar>x\<bar> then Fin x else Fin (x + 1)
      | _ \<Rightarrow> np_add n (Fin 1))"

definition pulse_resistance :: "npfloat \<Rightarrow> npfloat" where
  "pulse_resistance R =
     np_add (Fin r_min) (np_mul (Fin r_max) (np_pow (add_one (pulse_number R)) a_exp))"

definition resistance2conductance :: "npfloat \<Rightarrow> npfloat" where
  "resistance2conductance R =
     (let g_curr = np_div (Fin 1.0) R;
          g_norm = np_div (np_sub g_curr (Fin g_min)) (Fin (g_max - g_min))
      in np_mul g_norm (Fin gain))"

subsection \<open>The operator \<open>SimmPES\<close>\<close>

text \<open>
  Vectors are lists and matrices are lists of rows. \<open>np.dot\<close> of a matrix and a vector
  raises \<open>ValueError\<close> when the row length is not the vector's length.
\<close>

definition np_dot :: "real list list \<Rightarrow> real list \<Rightarrow> py_error + real list" where
  "np_dot A v =
     (if list_all (\<lambda>row. length row = length v) A
      then Inr (map (\<lambda>row. sum_list (map2 (*) row v)) A)
      else Inl ValueError)"

definition np_outer :: "real list \<Rightarrow> real list \<Rightarrow> real list list" where
  "np_outer u v = map (\<lambda>x. map (\<lambda>y. x * y) v) u"

definition same_shape :: "'a list list \<Rightarrow> 'b list list \<Rightarrow> bool" where
  "same_shape A B = (length A = length B \<and> list_all2 (\<lambda>r s. length r = length s) A B)"

text \<open>
  \<open>make_step\<close> reads the number of pre-synaptic neurons from the shape of \<open>pre_filtered\<close>
  and fixes \<^verbatim>\<open>alpha = -self.learning_rate * dt / n_neurons\<close>, a division of Python floats
  by a Python int.
\<close>

definition make_step_alpha :: "real \<Rightarrow> real \<Rightarrow> nat \<Rightarrow> py_error + real" where
  "make_step_alpha learning_rate dt n_neurons =
     (if n_neurons = 0 then Inl ZeroDivisionError
      else Inr (- learning_rate * dt / real n_neurons))"

definition simmpes_local_error :: "real \<Rightarrow> real list list \<Rightarrow> real list \<Rightarrow> py_error + real list" where
  "simmpes_local_error alpha encoders error =
     (case np_dot encoders error of
        Inl e \<Rightarrow> Inl e
      | Inr d \<Rightarrow> Inr (map (\<lambda>x. alpha * x) d))"

text \<open>
  \<^verbatim>\<open>pes_delta = np.outer( local_error, pre_filtered )\<close> and
  \<^verbatim>\<open>V = np.sign( pes_delta ) * 1e-1\<close>. Only the sign of \<open>pes_delta\<close> is used, and the sign
  of a product of doubles is the sign of the exact product unless the product underflows:
  a product of magnitude at most \<open>2 ** -1075\<close>, half the smallest positive double, is
  rounded to zero.
\<close>

definition pes_delta_sign :: "real \<Rightarrow> real" where
  "pes_delta_sign p = (if \<bar>p\<bar> \<le> 1 / 2 ^ 1075 then 0 else sgn p)"

definition update_voltage :: "real list \<Rightarrow> real list \<Rightarrow> real list list" where
  "update_voltage local_error pre_filtered =
     map (map (\<lambda>p. pes_delta_sign p * (1 / 10))) (np_outer local_error pre_filtered)"

text \<open>
  \<^verbatim>\<open>M[ mask ] = r_min + r_max * ((((M[ mask ] - r_min) / r_max)**(1 / a)) + 1)**a\<close>:
  the entries under the mask receive one pulse, the others are not written.
\<close>

definition masked_pulse :: "bool list list \<Rightarrow> npfloat list list \<Rightarrow> npfloat list list" where
  "masked_pulse msk M =
     map2 (\<lambda>mrow row. map2 (\<lambda>b R. if b then pulse_resistance R else R) mrow row) msk M"

text \<open>
  One call of \<open>step_simmpes\<close>. The signals read are arguments, the signals updated
  (\<open>delta\<close>, \<open>pos_memristors\<close>, \<open>neg_memristors\<close>) are the result; \<open>delta\<close> is overwritten
  whole and has the shape of the device matrices. A boolean mask whose shape is not the
  indexed array's raises \<open>IndexError\<close>.
\<close>

definition step_simmpes ::
  "real \<Rightarrow> real list \<Rightarrow> real list \<Rightarrow> real list list \<Rightarrow> npfloat list list \<times> npfloat list list
     \<Rightarrow> py_error + (npfloat list list \<times> npfloat list list \<times> npfloat list list)" where
  "step_simmpes alpha pre_filtered error encoders mem =
     (case mem of (pos_memristors, neg_memristors) \<Rightarrow>
      (case simmpes_local_error alpha encoders error of
         Inl e \<Rightarrow> Inl e
       | Inr local_error \<Rightarrow>
           (let V = update_voltage local_error pre_filtered
            in if \<not> same_shape V pos_memristors \<or> \<not> same_shape V neg_memristors
               then Inl IndexError
               else
                 (let pos' = masked_pulse (map (map (\<lambda>v. 0 < v)) V) pos_memristors;
                      neg' = masked_pulse (map (map (\<lambda>v. v < 0)) V) neg_memristors;
                      delta = map2 (map2 (\<lambda>p n. np_sub (resistance2conductance p)
                                                         (resistance2conductance n))) pos' neg'
                  in Inr (delta, pos', neg')))))"

text \<open>
  A simulation calls the step once per timestep, with that timestep's filtered
  activities and error, on the device states the previous step left.
\<close>

fun simmpes_run ::
  "real \<Rightarrow> real list list \<Rightarrow> (real list \<times> real list) list \<Rightarrow> npfloat list list \<times> npfloat list list
     \<Rightarrow> py_error + (npfloat list list \<times> npfloat list list)" where
  "simmpes_run alpha encoders [] mem = Inr mem"
| "simmpes_run alpha encoders ((pre_filtered, error) # rest) mem =
     (case step_simmpes alpha pre_filtered error encoders mem of
        Inl e \<Rightarrow> Inl e
      | Inr (delta, pos', neg') \<Rightarrow> simmpes_run alpha encoders rest (pos', neg'))"

text \<open>
  \<open>build_mpes\<close> initialises both device matrices with
  \<^verbatim>\<open>mpes.initial_resistances( 1e8, 1.1e8, (out_size, in_size) )\<close>, which is
  \<open>np.random.uniform( low, high, shape )\<close>: every entry is \<open>low + (high - low) * u\<close> for a
  draw \<open>u\<close> of the generator from \<open>[0, 1)\<close>. The matrix of draws is the argument.
\<close>

definition initial_resistances :: "real \<Rightarrow> real \<Rightarrow> real list list \<Rightarrow> npfloat list list" where
  "initial_resistances low high draws = map (map (\<lambda>u. Fin (low + (high - low) * u))) draws"

definition unit_draws :: "real list list \<Rightarrow> bool" where
  "unit_draws draws = list_all (list_all (\<lambda>u. 0 \<le> u \<and> u < 1)) draws"

fun within_bounds :: "npfloat \<Rightarrow> bool" where
  "within_bounds (Fin R) = (r_min \<le> R \<and> R \<le> r_max)"
| "within_bounds _ = False"

definition has_shape :: "nat \<Rightarrow> nat \<Rightarrow> 'a list list \<Rightarrow> bool" where
  "has_shape m n M = (length M = m \<and> list_all (\<lambda>row. length row = n) M)"

definition all_within :: "npfloat list list \<Rightarrow> bool" where
  "all_within M = list_all (list_all within_bounds) M"

text \<open>The weight contribution of a device with a finite, positive resistance.\<close>

definition conductance_of :: "real \<Rightarrow> real" where
  "conductance_of R = (1 / R - g_min) / (g_max - g_min) * gain"


subsection \<open>The frontend class \<open>mPES\<close>\<close>

text \<open>
  \<open>mPES.normalized_conductance\<close> on one entry \<open>R\<close> of a resistance array. The bounds are the
  parameters \<open>self.r_max\<close> and \<open>self.r_min\<close> (Python numbers, so \<open>1.0 / self.r_max\<close> raises on
  zero); \<open>epsilon\<close> is \<open>np.finfo( float ).eps\<close>, that is \<open>2 ** -52\<close>, and the gain is \<open>1e5\<close>.
\<close>

definition epsilon :: real where "epsilon = 1 / 2 ^ 52"

definition normalized_conductance :: "real \<Rightarrow> real \<Rightarrow> npfloat \<Rightarrow> py_error + npfloat" where
  "normalized_conductance self_r_max self_r_min R =
     (let g_curr = np_div (Fin 1.0) R
      in if self_r_max = 0 \<or> self_r_min = 0 then Inl ZeroDivisionError
         else
           (let g_min' = 1.0 / self_r_max;
                g_max' = 1.0 / self_r_min
            in Inr (np_mul (Fin 100000)
                     (np_add (np_div (np_sub g_curr (Fin g_min')) (Fin (g_max' - g_min')))
                             (Fin epsilon)))))"

section \<open>The learning rules of \<open>memristor_learning/MemristorLearningRules.py\<close>\<close>

text \<open>
  The attributes of \<open>MemristorLearningRule\<close>. The class of the devices held in
  \<open>memristors\<close> is not part of these sources: the device type is a type variable and the
  method \<open>pulse\<close> a parameter of every rule, a function from the device, the value passed,
  the keyword \<open>value\<close> and the keyword \<open>method\<close> to the device after the pulse and the
  number returned. The value passed is a float, a row of an array or a numpy boolean,
  and \<open>last_error\<close> holds the error slice or the Python int \<open>0\<close>.
\<close>

datatype npvalue = Scalar real | Array "real list" | Boolean bool

type_synonym 'd pulse = "'d \<Rightarrow> npvalue \<Rightarrow> string \<Rightarrow> string \<Rightarrow> 'd \<times> real"

record 'd learning_rule =
  learning_rate :: real
  dt :: real
  last_error :: "npvalue option"
  input_size :: nat
  output_size :: nat
  weights :: "real list list"
  memristors :: "'d list list"

text \<open>\<^verbatim>\<open>self.alpha = self.learning_rate * self.dt\<close>, set by the unsupervised rules.\<close>

definition rule_alpha :: "('d, 'x) learning_rule_scheme \<Rightarrow> real" where
  "rule_alpha self = learning_rate self * dt self"

text \<open>\<open>np.rint\<close> rounds to the nearest integer and a tie to the even one.\<close>

definition np_rint :: "real \<Rightarrow> int" where
  "np_rint x =
     (let f = \<lfloor>x\<rfloor>; d = x - of_int f
      in if d < 1 / 2 then f else if 1 / 2 < d then f + 1
         else if even f then f else f + 1)"

text \<open>\<^verbatim>\<open>np.array( np.rint( x ), dtype=bool )\<close>: true unless the rounded value is zero.\<close>

definition spiked :: "real \<Rightarrow> bool" where
  "spiked x = (np_rint x \<noteq> 0)"

text \<open>
  \<open>find_spikes\<close>. \<open>spiked_pre\<close> has \<open>output_size\<close> rows, each the rounded input;
  \<open>spiked_post\<close> has one row per output activity, \<open>input_size\<close> long, or is the single row
  \<open>np.ones( (1, input_size) )\<close>, which \<open>np.logical_and\<close> stretches over the rows of
  \<open>spiked_pre\<close>. Otherwise the two shapes have to agree: numpy's stretching of other
  one-element axes is not modelled, a disagreement is the \<open>ValueError\<close> of the broadcast.
\<close>

definition find_spikes ::
  "('d, 'x) learning_rule_scheme \<Rightarrow> real list \<Rightarrow> real list option \<Rightarrow> py_error + bool list list" where
  "find_spikes self input_activities output_activities =
     (let spiked_pre = replicate (output_size self) (map spiked input_activities)
      in case output_activities of
           None \<Rightarrow>
             if length input_activities = input_size self then Inr spiked_pre
             else Inl ValueError
         | Some post \<Rightarrow>
             (let spiked_post = map (\<lambda>p. replicate (input_size self) (spiked p)) post
              in if length post = output_size self \<and> length input_activities = input_size self
                 then Inr (map2 (map2 (\<and>)) spiked_pre spiked_post)
                 else Inl ValueError))"

text \<open>\<^verbatim>\<open>np.transpose( np.where( spiked_map ) )\<close>: the true entries, row by row.\<close>

definition where_true :: "bool list list \<Rightarrow> (nat \<times> nat) list" where
  "where_true spiked_map =
     concat (map (\<lambda>j. map (\<lambda>i. (j, i)) (filter (\<lambda>i. spiked_map ! j ! i)
                                             [0..<length (spiked_map ! j)]))
                 [0..<length spiked_map])"

text \<open>
  \<^verbatim>\<open>self.weights[ j, i ] = self.memristors[ j, i ].pulse( v, value="conductance", method=m )\<close>:
  the device at \<open>(j, i)\<close> is replaced by the device after the pulse and the weight by the
  number returned; an index outside either array raises.
\<close>

definition pulse_entry ::
  "'d pulse \<Rightarrow> string \<Rightarrow> nat \<Rightarrow> nat \<Rightarrow> npvalue \<Rightarrow> ('d, 'x) learning_rule_scheme
     \<Rightarrow> py_error + ('d, 'x) learning_rule_scheme" where
  "pulse_entry pulse method j i v self =
     (if j < length (memristors self) \<and> i < length (memristors self ! j)
         \<and> j < length (weights self) \<and> i < length (weights self ! j)
      then (case pulse (memristors self ! j ! i) v ''conductance'' method of
              (device, w) \<Rightarrow>
                Inr (self\<lparr>memristors := (memristors self)[j := (memristors self ! j)[i := device]],
                          weights := (weights self)[j := (weights self ! j)[i := w]]\<rparr>))
      else Inl IndexError)"

text \<open>
  The loop shared by \<open>mOja\<close>, \<open>mBCM\<close> and \<open>mPES\<close>: one pulse per true entry of the map, its
  value read from the rule's update at that entry (which may raise).
\<close>

fun pulse_loop ::
  "'d pulse \<Rightarrow> string \<Rightarrow> (nat \<Rightarrow> nat \<Rightarrow> py_error + npvalue) \<Rightarrow> (nat \<times> nat) list
     \<Rightarrow> ('d, 'x) learning_rule_scheme \<Rightarrow> py_error + ('d, 'x) learning_rule_scheme" where
  "pulse_loop pulse method update [] self = Inr self"
| "pulse_loop pulse method update ((j, i) # rest) self =
     (case update j i of
        Inl e \<Rightarrow> Inl e
      | Inr v \<Rightarrow>
          (case pulse_entry pulse method j i v self of
             Inl e \<Rightarrow> Inl e
           | Inr self' \<Rightarrow> pulse_loop pulse method update rest self'))"

text \<open>The last line of every rule: \<^verbatim>\<open>return np.dot( self.weights, input_activities )\<close>.\<close>

definition rule_output ::
  "('d, 'x) learning_rule_scheme \<Rightarrow> real list
     \<Rightarrow> py_error + (('d, 'x) learning_rule_scheme \<times> real list)" where
  "rule_output self input_activities =
     (case np_dot (weights self) input_activities of
        Inl e \<Rightarrow> Inl e
      | Inr out \<Rightarrow> Inr (self, out))"

subsection \<open>\<open>mHopfieldHebbian\<close>\<close>

fun hebbian_loop ::
  "'d pulse \<Rightarrow> bool list list \<Rightarrow> (nat \<times> nat) list \<Rightarrow> ('d, 'x) learning_rule_scheme
     \<Rightarrow> py_error + ('d, 'x) learning_rule_scheme" where
  "hebbian_loop pulse spiked_map [] self = Inr self"
| "hebbian_loop pulse spiked_map ((j, i) # rest) self =
     (if i \<noteq> j
      then (case pulse_entry pulse ''same'' j i (Boolean (spiked_map ! j ! i)) self of
              Inl e \<Rightarrow> Inl e
            | Inr self' \<Rightarrow>
                (case pulse_entry pulse ''same'' i j (Boolean (spiked_map ! i ! j)) self' of
                   Inl e \<Rightarrow> Inl e
                 | Inr self'' \<Rightarrow> hebbian_loop pulse spiked_map rest self''))
      else hebbian_loop pulse spiked_map rest self)"

definition mHopfieldHebbian_call ::
  "'d pulse \<Rightarrow> ('d, 'x) learning_rule_scheme \<Rightarrow> real list
     \<Rightarrow> py_error + (('d, 'x) learning_rule_scheme \<times> real list)" where
  "mHopfieldHebbian_call pulse self x =
     (let input_activities = x
      in case find_spikes self input_activities (Some input_activities) of
           Inl e \<Rightarrow> Inl e
         | Inr spiked_map \<Rightarrow>
             (case hebbian_loop pulse spiked_map (where_true spiked_map) self of
                Inl e \<Rightarrow> Inl e
              | Inr self' \<Rightarrow> rule_output self' input_activities))"

subsection \<open>\<open>mOja\<close>\<close>

text \<open>
  The update direction of \<open>mOja.__call__\<close>, from \<open>post_squared\<close> to \<open>update_direction\<close>.
  The weights are multiplied row by row with \<open>post_squared\<close>, and \<open>hebbian\<close> and
  \<open>forgetting\<close> are subtracted entry by entry; shapes that do not agree are a \<open>ValueError\<close>.
\<close>

definition mOja_update_direction ::
  "real \<Rightarrow> real \<Rightarrow> real list list \<Rightarrow> real list \<Rightarrow> real list \<Rightarrow> py_error + real list list" where
  "mOja_update_direction self_alpha self_beta self_weights input_activities output_activities =
     (let post_squared = map (\<lambda>y. self_alpha * y * y) output_activities
      in if length self_weights \<noteq> length post_squared then Inl ValueError
         else
           (let forgetting = map2 (\<lambda>row p. map (\<lambda>w. - self_beta * w * p) row)
                                  self_weights post_squared;
                hebbian = np_outer (map (\<lambda>y. self_alpha * y) output_activities) input_activities
            in if \<not> same_shape hebbian forgetting then Inl ValueError
               else Inr (map2 (map2 (\<lambda>h f. h - f)) hebbian forgetting)))"

text \<open>Reading entry \<open>(j, i)\<close> of a matrix or entry \<open>j\<close> of a vector raises outside its shape.\<close>

definition matrix_entry :: "real list list \<Rightarrow> nat \<Rightarrow> nat \<Rightarrow> py_error + npvalue" where
  "matrix_entry M j i =
     (if j < length M \<and> i < length (M ! j) then Inr (Scalar (M ! j ! i)) else Inl IndexError)"

definition vector_entry :: "'a list \<Rightarrow> nat \<Rightarrow> py_error + 'a" where
  "vector_entry v j = (if j < length v then Inr (v ! j) else Inl IndexError)"

definition mOja_call ::
  "'d pulse \<Rightarrow> real \<Rightarrow> ('d, 'x) learning_rule_scheme \<Rightarrow> real list
     \<Rightarrow> py_error + (('d, 'x) learning_rule_scheme \<times> real list)" where
  "mOja_call pulse self_beta self x =
     (let input_activities = take (input_size self) x;
          output_activities = take (output_size self) (drop (input_size self) x)
      in case mOja_update_direction (rule_alpha self) self_beta (weights self)
                input_activities output_activities of
           Inl e \<Rightarrow> Inl e
         | Inr update_direction \<Rightarrow>
             (case find_spikes self input_activities (Some output_activities) of
                Inl e \<Rightarrow> Inl e
              | Inr spiked_map \<Rightarrow>
                  (case pulse_loop pulse ''same'' (matrix_entry update_direction)
                          (where_true spiked_map) self of
                     Inl e \<Rightarrow> Inl e
                   | Inr self' \<Rightarrow> rule_output self' input_activities)))"

subsection \<open>\<open>mBCM\<close>\<close>

text \<open>
  \<open>update_direction = output_activities - theta\<close> subtracts two vectors entry by entry;
  as above, lengths that do not agree are the \<open>ValueError\<close> of the broadcast. The value
  \<open>update\<close> that the method also computes is not used.
\<close>

definition mBCM_call ::
  "'d pulse \<Rightarrow> ('d, 'x) learning_rule_scheme \<Rightarrow> real list
     \<Rightarrow> py_error + (('d, 'x) learning_rule_scheme \<times> real list)" where
  "mBCM_call pulse self x =
     (let input_activities = take (input_size self) x;
          output_activities = take (output_size self) (drop (input_size self) x);
          theta = drop (input_size self + output_size self) x
      in if length output_activities \<noteq> length theta then Inl ValueError
         else
           (let update_direction = map2 (\<lambda>y t. y - t) output_activities theta
            in case find_spikes self input_activities (Some output_activities) of
                 Inl e \<Rightarrow> Inl e
               | Inr spiked_map \<Rightarrow>
                   (case pulse_loop pulse ''same''
                           (\<lambda>j i. map_sum id Scalar (vector_entry update_direction j))
                           (where_true spiked_map) self of
                      Inl e \<Rightarrow> Inl e
                    | Inr self' \<Rightarrow> rule_output self' input_activities)))"

subsection \<open>\<open>mPES\<close>\<close>

text \<open>
  \<^verbatim>\<open>error = x[ self.input_size: ] if abs( x[ self.input_size: ] ) > 10**-5 else 0\<close>.
  The condition is an array of booleans, and Python asks for its truth value: an array
  of one element has that element's, any other array (with more elements, or with none
  in current numpy) raises \<open>ValueError\<close>. \<open>10**-5\<close> is a float, the double nearest to
  \<open>1 / 100000\<close>: \<open>5902958103587057 / 2 ** 69\<close>, a little above \<open>1 / 100000\<close>. The comparison of
  two doubles is exact.
\<close>

definition error_threshold :: real where
  "error_threshold = 5902958103587057 / 2 ^ 69"

definition squash_error :: "real list \<Rightarrow> py_error + npvalue" where
  "squash_error error_slice =
     (case error_slice of
        [e] \<Rightarrow> if error_threshold < \<bar>e\<bar> then Inr (Array [e]) else Inr (Scalar 0)
      | _ \<Rightarrow> Inl ValueError)"

text \<open>
  \<^verbatim>\<open>local_error = alpha * np.dot( self.encoders, error )\<close>, one value per row of the
  encoders: with the error slice the row's product with it, a float; with the int \<open>0\<close>
  the row times \<open>0\<close>, an array.
\<close>

definition mPES_local_error :: "real \<Rightarrow> real list list \<Rightarrow> npvalue \<Rightarrow> py_error + npvalue list" where
  "mPES_local_error a encoders error =
     (case error of
        Array v \<Rightarrow>
          (case np_dot encoders v of
             Inl e \<Rightarrow> Inl e
           | Inr d \<Rightarrow> Inr (map (\<lambda>y. Scalar (a * y)) d))
      | Scalar c \<Rightarrow> Inr (map (\<lambda>row. Array (map (\<lambda>y. a * (y * c)) row)) encoders)
      | Boolean b \<Rightarrow> Inl ValueError)"

definition mPES_call ::
  "'d pulse \<Rightarrow> real list list \<Rightarrow> ('d, 'x) learning_rule_scheme \<Rightarrow> real list
     \<Rightarrow> py_error + (('d, 'x) learning_rule_scheme \<times> real list)" where
  "mPES_call pulse encoders self x =
     (let input_activities = take (input_size self) x
      in case squash_error (drop (input_size self) x) of
           Inl e \<Rightarrow> Inl e
         | Inr error \<Rightarrow>
             if input_size self = 0 then Inl ZeroDivisionError
             else
               (let a = learning_rate self * dt self / real (input_size self);
                    self1 = self\<lparr>last_error := Some error\<rparr>
                in case mPES_local_error a encoders error of
                     Inl e \<Rightarrow> Inl e
                   | Inr local_error \<Rightarrow>
                       (case find_spikes self1 input_activities None of
                          Inl e \<Rightarrow> Inl e
                        | Inr spiked_map \<Rightarrow>
                            (case pulse_loop pulse ''inverse''
                                    (\<lambda>j i. vector_entry local_error j)
                                    (where_true spiked_map) self1 of
                               Inl e \<Rightarrow> Inl e
                             | Inr self' \<Rightarrow> rule_output self' input_activities))))"

subsection \<open>A crossbar to run the rules on\<close>

text \<open>
  A device that only counts the pulses it has received and answers with the count, and a
  crossbar of such devices with all weights zero and learning rate and timestep one.
\<close>

definition counting_pulse :: "nat pulse" where
  "counting_pulse device v val method = (Suc device, real (Suc device))"

definition crossbar :: "nat \<Rightarrow> nat \<Rightarrow> nat learning_rule" where
  "crossbar out_size in_size =
     \<lparr>learning_rate = 1, dt = 1, last_error = None, input_size = in_size, output_size = out_size,
      weights = replicate out_size (replicate in_size 0),
      memristors = replicate out_size (replicate in_size 0)\<rparr>"



text \<open>
  The devices that the loop of \<open>mHopfieldHebbian\<close> pulses, in the order of the pulses, for
  the entries the loop visits: two for every entry off the diagonal. And the device
  after one pulse with the value \<open>True\<close> and the method \<open>same\<close>.
\<close>

definition hebbian_pulses :: "(nat \<times> nat) list \<Rightarrow> (nat \<times> nat) list" where
  "hebbian_pulses idxs = concat (map (\<lambda>(j, i). if i \<noteq> j then [(j, i), (i, j)] else []) idxs)"

definition same_pulse :: "'d pulse \<Rightarrow> 'd \<Rightarrow> 'd" where
  "same_pulse pulse device = fst (pulse device (Boolean True) ''conductance'' ''same'')"

section \<open>The power law\<close>

lemma a_exp_neg: "a_exp < 0"
  by (simp add: a_exp_def)

lemma powerlaw_roundtrip:
  assumes "0 < x"
  shows "(x powr (1 / a_exp)) powr a_exp = x"
proof -
  have "(x powr (1 / a_exp)) powr a_exp = x powr 1"
    using a_exp_neg by (simp add: powr_powr)
  then show ?thesis using assms by simp
qed

lemma powerlaw_back_below:
  assumes "0 < x"
  shows "0 < (x powr (1 / a_exp) + 1) powr a_exp" and "(x powr (1 / a_exp) + 1) powr a_exp < x"
proof -
  let ?n = "x powr (1 / a_exp)"
  have n_pos: "0 < ?n" using assms by simp
  then have "0 < ?n + 1" by linarith
  then show "0 < (?n + 1) powr a_exp" by simp
  have "(?n + 1) powr a_exp < ?n powr a_exp"
    by (rule powr_less_mono2_neg [OF a_exp_neg n_pos]) simp
  then show "(?n + 1) powr a_exp < x"
    by (simp add: powerlaw_roundtrip [OF assms])
qed

text \<open>The pulse number of a resistance above \<open>r_min\<close>, and the resistance after the pulse.\<close>

lemma pulse_number_finite:
  assumes "r_min < R"
  shows "pulse_number (Fin R) = Fin (((R - r_min) / r_max) powr (1 / a_exp))"
proof -
  have x: "0 < (R - r_min) / r_max" using assms by (simp add: r_max_def)
  have a: "1 / a_exp \<noteq> 0" by (simp add: a_exp_def)
  have r: "r_max \<noteq> 0" by (simp add: r_max_def)
  show ?thesis using x a r by (simp add: pulse_number_def np_sub_def)
qed

lemma pulse_resistance_finite:
  assumes "r_min < R" and "((R - r_min) / r_max) powr (1 / a_exp) < 2 ^ 54"
  shows "pulse_resistance (Fin R) =
           Fin (r_min + r_max * (((R - r_min) / r_max) powr (1 / a_exp) + 1) powr a_exp)"
proof -
  let ?n = "((R - r_min) / r_max) powr (1 / a_exp)"
  have n0: "0 \<le> ?n" by simp
  then have n: "0 < ?n + 1" by linarith
  have abs: "\<bar>?n\<bar> = ?n" using n0 by simp
  have a: "a_exp \<noteq> 0" by (simp add: a_exp_def)
  show ?thesis
    using n a assms(2) unfolding pulse_resistance_def pulse_number_finite [OF assms(1)] add_one_def
    by (simp add: abs)
qed

lemma pulse_resistance_absorbed:
  assumes "r_min < R" and "2 ^ 54 \<le> ((R - r_min) / r_max) powr (1 / a_exp)"
  shows "pulse_resistance (Fin R) = Fin R"
proof -
  let ?x = "(R - r_min) / r_max"
  let ?n = "?x powr (1 / a_exp)"
  have x: "0 < ?x" using assms(1) by (simp add: r_max_def)
  have n: "0 < ?n" using assms(1) by (simp add: r_max_def)
  have abs: "\<bar>?n\<bar> = ?n" using n by simp
  have a: "a_exp \<noteq> 0" by (simp add: a_exp_def)
  have "pulse_resistance (Fin R) = Fin (r_min + r_max * (?n powr a_exp))"
    using n a assms(2) unfolding pulse_resistance_def pulse_number_finite [OF assms(1)] add_one_def
    by (simp add: abs)
  also have "r_min + r_max * (?n powr a_exp) = R"
  proof -
    have "r_max \<noteq> 0" by (simp add: r_max_def)
    then have "r_max * ((R - r_min) / r_max) = R - r_min" by simp
    then show ?thesis unfolding powerlaw_roundtrip [OF x] by simp
  qed
  finally show ?thesis .
qed

lemma pulse_resistance_saturated: "pulse_resistance (Fin r_min) = Fin r_min"
  by (simp add: pulse_resistance_def pulse_number_def add_one_def np_sub_def a_exp_def r_max_def)

lemma pulse_resistance_lower:
  assumes "r_min < R" and "((R - r_min) / r_max) powr (1 / a_exp) < 2 ^ 54"
  shows "\<exists>R'. pulse_resistance (Fin R) = Fin R' \<and> r_min < R' \<and> R' < R"
proof -
  let ?x = "(R - r_min) / r_max"
  let ?p = "(?x powr (1 / a_exp) + 1) powr a_exp"
  have x: "0 < ?x" using assms(1) by (simp add: r_max_def)
  have p: "0 < ?p" "?p < ?x" using powerlaw_back_below [OF x] by simp_all
  have rm: "0 < r_max" by (simp add: r_max_def)
  have "r_max * ?p < r_max * ?x" by (rule mult_strict_left_mono [OF p(2) rm])
  also have "\<dots> = R - r_min" using rm by simp
  finally have lt: "r_min + r_max * ?p < R" by simp
  have gt: "r_min < r_min + r_max * ?p" using p(1) rm by simp
  show ?thesis using pulse_resistance_finite [OF assms] lt gt by blast
qed

lemma pulse_resistance_not_above:
  assumes "r_min < R"
  shows "\<exists>R'. pulse_resistance (Fin R) = Fin R' \<and> r_min < R' \<and> R' \<le> R"
proof (cases "((R - r_min) / r_max) powr (1 / a_exp) < 2 ^ 54")
  case True
  then show ?thesis using pulse_resistance_lower [OF assms] by (meson less_imp_le)
next
  case False
  then show ?thesis using pulse_resistance_absorbed [OF assms] assms by auto
qed

text \<open>From \<open>1e7\<close> ohms upwards the pulse number is far below \<open>2 ** 54\<close>.\<close>

lemma pulse_number_small:
  assumes "1 / 26 \<le> x"
  shows "x powr (1 / a_exp) < 2 ^ 54"
proof -
  have "x powr (1 / a_exp) \<le> (1 / 26) powr (1 / a_exp)"
    by (rule powr_mono2') (use assms in \<open>simp_all add: a_exp_def\<close>)
  also have "(1 / 26) powr (1 / a_exp) = 26 powr (- (1 / a_exp))"
    by (simp add: powr_minus powr_divide inverse_eq_divide powr_one_eq_one)
  also have "\<dots> \<le> 26 powr 6"
    by (rule powr_mono) (simp_all add: a_exp_def)
  also have "\<dots> = 26 ^ 6"
    by (simp add: powr_realpow [symmetric])
  also have "\<dots> < (2 :: real) ^ 54" by simp
  finally show ?thesis .
qed

lemma pulse_resistance_decreases:
  assumes "10000000 \<le> R"
  shows "\<exists>R'. pulse_resistance (Fin R) = Fin R' \<and> r_min < R' \<and> R' < R"
proof -
  have R: "r_min < R" using assms by (simp add: r_min_def)
  have "1 / 26 \<le> (R - r_min) / r_max"
    using assms by (simp add: r_min_def r_max_def field_simps)
  then show ?thesis using pulse_resistance_lower [OF R pulse_number_small] by blast
qed

lemma resistance2conductance_finite:
  "0 < R \<Longrightarrow> resistance2conductance (Fin R) = Fin (conductance_of R)"
  by (simp add: resistance2conductance_def conductance_of_def np_sub_def
      g_min_def g_max_def r_min_def r_max_def)

lemma conductance_of_antimono:
  assumes "0 < R'" "0 < R" "R' < R"
  shows "conductance_of R < conductance_of R'"
proof -
  have "1 / R < 1 / R'" using assms by (simp add: frac_less2)
  then have "(1 / R - g_min) / (g_max - g_min) < (1 / R' - g_min) / (g_max - g_min)"
    by (simp add: g_min_def g_max_def r_min_def r_max_def divide_strict_right_mono)
  moreover have "0 < gain" by (simp add: gain_def)
  ultimately show ?thesis
    unfolding conductance_of_def by (rule mult_strict_right_mono)
qed

section \<open>The bounds of the resistances\<close>

lemma pulse_resistance_within:
  assumes "within_bounds R"
  shows "within_bounds (pulse_resistance R)"
proof (cases R)
  case (Fin r)
  with assms have r: "r_min \<le> r" "r \<le> r_max" by simp_all
  show ?thesis
  proof (cases "r = r_min")
    case True
    then show ?thesis using Fin pulse_resistance_saturated by (simp add: r_min_def r_max_def)
  next
    case False
    then have "r_min < r" using r by simp
    then obtain R' where "pulse_resistance (Fin r) = Fin R'" "r_min < R'" "R' \<le> r"
      using pulse_resistance_not_above by blast
    then show ?thesis using Fin r by simp
  qed
qed (use assms in simp_all)

lemma initial_resistances_within:
  assumes "unit_draws draws"
  shows "all_within (initial_resistances 100000000 110000000 draws)"
proof -
  have "within_bounds (Fin (100000000 + (110000000 - 100000000) * u))" if "0 \<le> u \<and> u < 1" for u :: real
    using that by (simp add: r_min_def r_max_def)
  then show ?thesis
    using assms
    by (auto simp: all_within_def initial_resistances_def unit_draws_def list_all_iff)
qed

lemma has_shape_same_shape:
  "has_shape m n A \<Longrightarrow> has_shape m n B \<Longrightarrow> same_shape A B"
  by (auto simp: has_shape_def same_shape_def list_all_iff list_all2_conv_all_nth)

lemma initial_resistances_shape:
  "has_shape m n draws \<Longrightarrow> has_shape m n (initial_resistances lo hi draws)"
  by (auto simp: has_shape_def initial_resistances_def list_all_iff)

lemma masked_pulse_shape:
  assumes "has_shape m n msk" "has_shape m n M"
  shows "has_shape m n (masked_pulse msk M)"
proof -
  have "length a = n \<and> length b = n" if "(a, b) \<in> set (zip msk M)" for a b
    using that assms
    by (auto simp: has_shape_def list_all_iff dest: set_zip_leftD set_zip_rightD)
  then show ?thesis
    using assms by (auto simp: has_shape_def masked_pulse_def list_all_iff)
qed

lemma masked_pulse_within:
  assumes "all_within M"
  shows "all_within (masked_pulse msk M)"
  using assms
  by (auto simp: all_within_def masked_pulse_def list_all_iff pulse_resistance_within
      dest!: set_zip_rightD)

lemma update_voltage_shape:
  "length local_error = m \<Longrightarrow> length pre = n \<Longrightarrow> has_shape m n (update_voltage local_error pre)"
  by (auto simp: has_shape_def update_voltage_def np_outer_def list_all_iff)

lemma simmpes_local_error_returns:
  assumes "list_all (\<lambda>row. length row = length error) encoders"
  shows "\<exists>le. simmpes_local_error alpha encoders error = Inr le \<and> length le = length encoders"
  using assms by (simp add: simmpes_local_error_def np_dot_def)

lemma step_simmpes_invariant:
  assumes enc: "list_all (\<lambda>row. length row = length error) encoders"
    and pre: "length pre = n"
    and shp: "has_shape (length encoders) n pos" "has_shape (length encoders) n neg"
    and wb: "all_within pos" "all_within neg"
  shows "\<exists>delta pos' neg'. step_simmpes alpha pre error encoders (pos, neg) = Inr (delta, pos', neg')
           \<and> has_shape (length encoders) n pos' \<and> has_shape (length encoders) n neg'
           \<and> all_within pos' \<and> all_within neg'"
proof -
  obtain le where le: "simmpes_local_error alpha encoders error = Inr le" "length le = length encoders"
    using simmpes_local_error_returns [OF enc] by blast
  let ?V = "update_voltage le pre"
  have V: "has_shape (length encoders) n ?V" using le(2) pre by (rule update_voltage_shape)
  have ss: "same_shape ?V pos" "same_shape ?V neg"
    using V shp by (simp_all add: has_shape_same_shape)
  have mp: "has_shape (length encoders) n (map (map (\<lambda>v. 0 < v)) ?V)"
    and mn: "has_shape (length encoders) n (map (map (\<lambda>v. v < 0)) ?V)"
    using V by (auto simp: has_shape_def list_all_iff)
  show ?thesis
    using le ss masked_pulse_shape [OF mp shp(1)] masked_pulse_shape [OF mn shp(2)]
      masked_pulse_within [OF wb(1)] masked_pulse_within [OF wb(2)]
    by (simp add: step_simmpes_def Let_def)
qed

lemma simmpes_run_invariant:
  assumes enc: "list_all (\<lambda>row. length row = d) encoders"
    and inp: "list_all (\<lambda>(pre, err). length pre = n \<and> length err = d) inputs"
    and shp: "has_shape (length encoders) n pos" "has_shape (length encoders) n neg"
    and wb: "all_within pos" "all_within neg"
  shows "\<exists>pos' neg'. simmpes_run alpha encoders inputs (pos, neg) = Inr (pos', neg')
           \<and> all_within pos' \<and> all_within neg'"
  using inp shp wb
proof (induction inputs arbitrary: pos neg)
  case Nil
  then show ?case by simp
next
  case (Cons inp rest)
  obtain pre err where inp_eq: "inp = (pre, err)" by (cases inp)
  with Cons.prems(1) have len: "length pre = n" "length err = d" and rest: "list_all (\<lambda>(pre, err). length pre = n \<and> length err = d) rest" by simp_all
  have enc': "list_all (\<lambda>row. length row = length err) encoders" using enc len by simp
  obtain delta p' n' where st: "step_simmpes alpha pre err encoders (pos, neg) = Inr (delta, p', n')"
     "has_shape (length encoders) n p'" "has_shape (length encoders) n n'" "all_within p'" "all_within n'"
    using step_simmpes_invariant [OF enc' len(1) Cons.prems(2,3,4,5)] by blast
  show ?case using Cons.IH [OF rest st(2-5)] st(1) inp_eq by simp
qed

text \<open>
  C4. Whatever the draws of the generator, the encoders and the sequence of activities
  and errors, every simulation of \<open>SimmPES\<close> from the device matrices that \<open>build_mpes\<close>
  samples between \<open>1e8\<close> and \<open>1.1e8\<close> returns, and every resistance of both matrices is a
  finite number between \<open>r_min\<close> and \<open>r_max\<close> after every timestep. The power law keeps
  the resistances inside the bounds by itself: no value is cut to a bound.
\<close>

theorem resistance_bounds_invariant:
  assumes "unit_draws pos_draws" and "unit_draws neg_draws"
    and "has_shape (length encoders) n pos_draws"
    and "has_shape (length encoders) n neg_draws"
    and "list_all (\<lambda>row. length row = d) encoders"
    and "list_all (\<lambda>(pre_filtered, error). length pre_filtered = n \<and> length error = d) inputs"
  shows "\<exists>pos neg.
           simmpes_run alpha encoders inputs
             (initial_resistances 100000000 110000000 pos_draws,
              initial_resistances 100000000 110000000 neg_draws) = Inr (pos, neg)
           \<and> all_within pos \<and> all_within neg"
  using assms
  by (intro simmpes_run_invariant initial_resistances_shape initial_resistances_within)

theorem resistance_bounds_invariant_witness:
  "\<exists>pos neg.
     simmpes_run (- 1 / 1000) [[1]] [([1], [1]), ([1], [- 1])]
       (initial_resistances 100000000 110000000 [[0]],
        initial_resistances 100000000 110000000 [[1 / 2]]) = Inr (pos, neg)
     \<and> all_within pos \<and> all_within neg"
  using resistance_bounds_invariant [of "[[0]]" "[[1 / 2]]" "[[1]]" 1 1
      "[([1], [1]), ([1], [- 1])]" "- 1 / 1000"]
  by (simp add: unit_draws_def has_shape_def)

section \<open>The pulse\<close>

text \<open>
  At \<open>150\<close> ohms the pulse number is above \<open>2 ** 54\<close>: the increment is lost and the pulse
  returns \<open>150\<close> ohms.
\<close>

lemma pulse_number_large: "2 ^ 54 \<le> ((150 - r_min) / r_max) powr (1 / a_exp)"
proof -
  have "(2 :: real) ^ 54 \<le> 5000000 ^ 3" by simp
  also have "\<dots> = 5000000 powr 3"
    by (simp add: powr_realpow [symmetric])
  also have "\<dots> \<le> 5000000 powr (- (1 / a_exp))"
    by (rule powr_mono) (simp_all add: a_exp_def)
  also have "\<dots> = (1 / 5000000) powr (1 / a_exp)"
    by (simp add: powr_minus powr_divide inverse_eq_divide powr_one_eq_one)
  also have "\<dots> = ((150 - r_min) / r_max) powr (1 / a_exp)"
    by (simp add: r_min_def r_max_def)
  finally show ?thesis .
qed

theorem powerlaw_pulse_counterexample:
  "r_min < 150 \<and> 150 \<le> r_max \<and> pulse_resistance (Fin 150) = Fin 150"
  using pulse_resistance_absorbed [OF _ pulse_number_large]
  by (simp add: r_min_def r_max_def)

text \<open>
  C5 (amended). For every resistance \<open>R\<close> with \<open>1e7 \<le> R \<le> r_max\<close>, which holds the
  resistances the devices start from, one pulse of the power law (invert \<open>R\<close> to the pulse
  number, add one, recompute the resistance) gives a finite resistance strictly below
  \<open>R\<close> and still above \<open>r_min\<close>, and the conductance computed from it is strictly higher; a
  device at \<open>r_min\<close> stays at \<open>r_min\<close>.
\<close>

theorem powerlaw_pulse_monotone:
  "(10000000 \<le> R \<and> R \<le> r_max \<longrightarrow>
      (\<exists>R' G G'. pulse_resistance (Fin R) = Fin R' \<and> r_min < R' \<and> R' < R
         \<and> resistance2conductance (Fin R) = Fin G
         \<and> resistance2conductance (Fin R') = Fin G' \<and> G < G'))
   \<and> pulse_resistance (Fin r_min) = Fin r_min"
proof (intro conjI impI)
  assume R: "10000000 \<le> R \<and> R \<le> r_max"
  then obtain R' where R': "pulse_resistance (Fin R) = Fin R'" "r_min < R'" "R' < R"
    using pulse_resistance_decreases by blast
  have pos: "0 < R'" "0 < R" using R' by (simp_all add: r_min_def)
  have "resistance2conductance (Fin R') = Fin (conductance_of R')"
    and "resistance2conductance (Fin R) = Fin (conductance_of R)"
    using pos by (simp_all add: resistance2conductance_finite)
  moreover have "conductance_of R < conductance_of R'"
    using pos R'(3) by (rule conductance_of_antimono)
  ultimately show "\<exists>R' G G'. pulse_resistance (Fin R) = Fin R' \<and> r_min < R' \<and> R' < R
         \<and> resistance2conductance (Fin R) = Fin G
         \<and> resistance2conductance (Fin R') = Fin G' \<and> G < G'"
    using R' by blast
next
  show "pulse_resistance (Fin r_min) = Fin r_min"
    by (rule pulse_resistance_saturated)
qed

theorem powerlaw_pulse_monotone_witness:
  "10000000 \<le> (100000000 :: real) \<and> (100000000::real) \<le> r_max \<and>
   (\<exists>R' G G'. pulse_resistance (Fin 100000000) = Fin R' \<and> r_min < R' \<and> R' < 100000000
         \<and> resistance2conductance (Fin 100000000) = Fin G
         \<and> resistance2conductance (Fin R') = Fin G' \<and> G < G')"
  using powerlaw_pulse_monotone [of 100000000] by (simp add: r_max_def)

section \<open>The output of a step\<close>

lemma rule_output_dot:
  "rule_output self v = Inr (self', out) \<Longrightarrow> self' = self \<and> np_dot (weights self) v = Inr out"
  by (auto simp: rule_output_def split: sum.splits)

text \<open>
  C8. Whenever the step of a rule returns, the rule it returns is the one its pulse loop
  left, and the vector it returns is the product of that rule's weights, the weights
  after the update of this step, with the pre-synaptic activities.
\<close>

theorem output_after_update:
  "(mHopfieldHebbian_call pulse self x = Inr (self', out) \<longrightarrow>
      (\<exists>spiked_map. hebbian_loop pulse spiked_map (where_true spiked_map) self = Inr self')
      \<and> np_dot (weights self') x = Inr out)
   \<and> (mOja_call pulse b self x = Inr (self', out) \<longrightarrow>
      (\<exists>update spiked_map.
          pulse_loop pulse ''same'' update (where_true spiked_map) self = Inr self')
      \<and> np_dot (weights self') (take (input_size self) x) = Inr out)
   \<and> (mBCM_call pulse self x = Inr (self', out) \<longrightarrow>
      (\<exists>update spiked_map.
          pulse_loop pulse ''same'' update (where_true spiked_map) self = Inr self')
      \<and> np_dot (weights self') (take (input_size self) x) = Inr out)
   \<and> (mPES_call pulse encoders self x = Inr (self', out) \<longrightarrow>
      (\<exists>update spiked_map error.
          pulse_loop pulse ''inverse'' update (where_true spiked_map)
            (self\<lparr>last_error := Some error\<rparr>) = Inr self')
      \<and> np_dot (weights self') (take (input_size self) x) = Inr out)"
proof (intro conjI impI)
  assume "mHopfieldHebbian_call pulse self x = Inr (self', out)"
  then show "\<exists>spiked_map. hebbian_loop pulse spiked_map (where_true spiked_map) self = Inr self'"
    and "np_dot (weights self') x = Inr out"
    by (auto simp: mHopfieldHebbian_call_def split: sum.splits dest!: rule_output_dot)
next
  assume "mOja_call pulse b self x = Inr (self', out)"
  then show "\<exists>update spiked_map.
          pulse_loop pulse ''same'' update (where_true spiked_map) self = Inr self'"
    and "np_dot (weights self') (take (input_size self) x) = Inr out"
    by (auto simp: mOja_call_def Let_def split: sum.splits dest!: rule_output_dot)
next
  assume "mBCM_call pulse self x = Inr (self', out)"
  then show "\<exists>update spiked_map.
          pulse_loop pulse ''same'' update (where_true spiked_map) self = Inr self'"
    and "np_dot (weights self') (take (input_size self) x) = Inr out"
    by (auto simp: mBCM_call_def Let_def split: sum.splits if_splits dest!: rule_output_dot)
next
  assume "mPES_call pulse encoders self x = Inr (self', out)"
  then show "\<exists>update spiked_map error.
          pulse_loop pulse ''inverse'' update (where_true spiked_map)
            (self\<lparr>last_error := Some error\<rparr>) = Inr self'"
    and "np_dot (weights self') (take (input_size self) x) = Inr out"
    by (auto simp: mPES_call_def Let_def split: sum.splits if_splits dest!: rule_output_dot)
qed

text \<open>The four rules on crossbars of counting devices, all inputs spiking.\<close>

lemma hebbian_example:
  "mHopfieldHebbian_call counting_pulse (crossbar 3 3) [1, 1, 1] =
     Inr ((crossbar 3 3)\<lparr>weights := [[0, 2, 2], [2, 0, 2], [2, 2, 0]],
                          memristors := [[0, 2, 2], [2, 0, 2], [2, 2, 0]]\<rparr>, [4, 4, 4])"
  by code_simp

lemma oja_example:
  "mOja_call counting_pulse 1 (crossbar 2 3) [1, 1, 1, 1, 0] =
     Inr ((crossbar 2 3)\<lparr>weights := [[1, 1, 1], [0, 0, 0]],
                          memristors := [[1, 1, 1], [0, 0, 0]]\<rparr>, [3, 0])"
  by code_simp

lemma bcm_example:
  "mBCM_call counting_pulse (crossbar 2 3) [1, 1, 1, 1, 0, 1 / 2, 1 / 2] =
     Inr ((crossbar 2 3)\<lparr>weights := [[1, 1, 1], [0, 0, 0]],
                          memristors := [[1, 1, 1], [0, 0, 0]]\<rparr>, [3, 0])"
  by code_simp

lemma pes_example:
  "mPES_call counting_pulse [[1], [1]] (crossbar 2 3) [1, 1, 1, 1] =
     Inr ((crossbar 2 3)\<lparr>last_error := Some (Array [1]), weights := [[1, 1, 1], [1, 1, 1]],
                          memristors := [[1, 1, 1], [1, 1, 1]]\<rparr>, [3, 3])"
  by code_simp

theorem output_after_update_witness:
  "np_dot (weights ((crossbar 3 3)\<lparr>weights := [[0, 2, 2], [2, 0, 2], [2, 2, 0]],
                          memristors := [[0, 2, 2], [2, 0, 2], [2, 2, 0]]\<rparr>)) [1, 1, 1]
     = Inr [4, 4, 4]
   \<and> np_dot (weights ((crossbar 2 3)\<lparr>weights := [[1, 1, 1], [0, 0, 0]],
                          memristors := [[1, 1, 1], [0, 0, 0]]\<rparr>))
        (take (input_size (crossbar 2 3)) [1, 1, 1, 1, 0]) = Inr [3, 0]
   \<and> np_dot (weights ((crossbar 2 3)\<lparr>weights := [[1, 1, 1], [0, 0, 0]],
                          memristors := [[1, 1, 1], [0, 0, 0]]\<rparr>))
        (take (input_size (crossbar 2 3)) [1, 1, 1, 1, 0, 1 / 2, 1 / 2]) = Inr [3, 0]
   \<and> np_dot (weights ((crossbar 2 3)\<lparr>last_error := Some (Array [1]),
                          weights := [[1, 1, 1], [1, 1, 1]],
                          memristors := [[1, 1, 1], [1, 1, 1]]\<rparr>))
        (take (input_size (crossbar 2 3)) [1, 1, 1, 1]) = Inr [3, 3]"
  using
    output_after_update [where pulse = counting_pulse and self = "crossbar 3 3"
      and x = "[1, 1, 1]" and out = "[4, 4, 4]"
      and self' = "(crossbar 3 3)\<lparr>weights := [[0, 2, 2], [2, 0, 2], [2, 2, 0]],
                          memristors := [[0, 2, 2], [2, 0, 2], [2, 2, 0]]\<rparr>"]
    output_after_update [where pulse = counting_pulse and self = "crossbar 2 3" and b = 1
      and x = "[1, 1, 1, 1, 0]" and out = "[3, 0]"
      and self' = "(crossbar 2 3)\<lparr>weights := [[1, 1, 1], [0, 0, 0]],
                          memristors := [[1, 1, 1], [0, 0, 0]]\<rparr>"]
    output_after_update [where pulse = counting_pulse and self = "crossbar 2 3"
      and x = "[1, 1, 1, 1, 0, 1 / 2, 1 / 2]" and out = "[3, 0]"
      and self' = "(crossbar 2 3)\<lparr>weights := [[1, 1, 1], [0, 0, 0]],
                          memristors := [[1, 1, 1], [0, 0, 0]]\<rparr>"]
    output_after_update [where pulse = counting_pulse and self = "crossbar 2 3"
      and encoders = "[[1], [1]]" and x = "[1, 1, 1, 1]" and out = "[3, 3]"
      and self' = "(crossbar 2 3)\<lparr>last_error := Some (Array [1]),
                          weights := [[1, 1, 1], [1, 1, 1]],
                          memristors := [[1, 1, 1], [1, 1, 1]]\<rparr>"]
    hebbian_example oja_example bcm_example pes_example
  by blast

section \<open>The error slice of the supervised rule\<close>

lemma squash_error_ambiguous:
  "length error_slice \<noteq> 1 \<Longrightarrow> squash_error error_slice = Inl ValueError"
  by (auto simp: squash_error_def split: list.splits)

text \<open>
  C9. The step of \<open>mPES\<close> in \<open>MemristorLearningRules.py\<close> raises for every input whose
  error slice \<open>x[ input_size: ]\<close> has more than one element: the comparison with the
  threshold is then an array without a truth value, and no output is returned.
\<close>

theorem mPES_call_ambiguous_error:
  "1 < length (drop (input_size self) x) \<Longrightarrow> mPES_call pulse encoders self x = Inl ValueError"
  by (simp add: mPES_call_def squash_error_ambiguous)

theorem mPES_call_ambiguous_error_witness:
  "1 < length (drop (input_size (crossbar 2 3)) [1, 1, 1, 1, 1 :: real])
   \<and> mPES_call counting_pulse [[1], [1]] (crossbar 2 3) [1, 1, 1, 1, 1] = Inl ValueError"
  using mPES_call_ambiguous_error [of "crossbar 2 3" "[1, 1, 1, 1, 1]" counting_pulse "[[1], [1]]"]
  by (simp add: crossbar_def)

section \<open>The conductance of a resistance\<close>

text \<open>
  At \<open>R = r_max\<close> the normalised conductance is zero, and \<open>normalized_conductance\<close> with
  the default bounds returns \<open>gain * epsilon\<close>, not zero.
\<close>

theorem conductance_offset_counterexample:
  "normalized_conductance 250000000 100 (Fin 250000000) = Inr (Fin (100000 * epsilon))
   \<and> Fin (100000 * epsilon)
       \<noteq> Fin (100000 * ((1 / 250000000 - 1 / 250000000) / (1 / 100 - 1 / 250000000)))"
  by (simp add: normalized_conductance_def np_sub_def epsilon_def)

text \<open>
  C7 (amended). For every resistance \<open>R > 0\<close>, so for every \<open>R\<close> between the bounds,
  \<open>resistance2conductance\<close> returns exactly
  \<open>gain * ((1 / R - 1 / r_max) / (1 / r_min - 1 / r_max))\<close> with the gain \<open>1e6\<close>, and
  \<open>mPES.normalized_conductance\<close> returns the gain \<open>1e5\<close> times the sum of the same quotient
  (over its own bounds) and \<open>epsilon = 2 ** -52\<close>. Neither clips \<open>R\<close> and neither changes the
  denominator: \<open>epsilon\<close> is an offset added to the normalised conductance.
\<close>

theorem conductance_conversions:
  "(0 < R \<longrightarrow>
      resistance2conductance (Fin R)
        = Fin (gain * ((1 / R - 1 / r_max) / (1 / r_min - 1 / r_max))))
   \<and> (0 < R \<and> 0 < self_r_min \<and> self_r_min < self_r_max \<longrightarrow>
      normalized_conductance self_r_max self_r_min (Fin R)
        = Inr (Fin (100000 * ((1 / R - 1 / self_r_max) / (1 / self_r_min - 1 / self_r_max)
                              + epsilon))))"
proof (intro conjI impI)
  assume "0 < R"
  then show "resistance2conductance (Fin R)
        = Fin (gain * ((1 / R - 1 / r_max) / (1 / r_min - 1 / r_max)))"
    by (simp add: resistance2conductance_finite conductance_of_def g_min_def g_max_def)
next
  assume a: "0 < R \<and> 0 < self_r_min \<and> self_r_min < self_r_max"
  then have "1 / self_r_max < 1 / self_r_min" by (simp add: frac_less2)
  then have "1 / self_r_min - 1 / self_r_max \<noteq> 0" by linarith
  then show "normalized_conductance self_r_max self_r_min (Fin R)
        = Inr (Fin (100000 * ((1 / R - 1 / self_r_max) / (1 / self_r_min - 1 / self_r_max)
                              + epsilon)))"
    using a by (simp add: normalized_conductance_def np_sub_def)
qed

theorem conductance_conversions_witness:
  "resistance2conductance (Fin 100000000)
        = Fin (gain * ((1 / 100000000 - 1 / r_max) / (1 / r_min - 1 / r_max)))
   \<and> normalized_conductance 250000000 100 (Fin 100000000)
        = Inr (Fin (100000 * ((1 / 100000000 - 1 / 250000000) / (1 / 100 - 1 / 250000000)
                              + epsilon)))"
  using conductance_conversions [of 100000000 100 250000000] by simp

section \<open>The update direction of \<open>mOja\<close>\<close>





section \<open>The pulses of \<open>mHopfieldHebbian\<close>\<close>

lemma count_list_Pair:
  "count_list (map (Pair j) ys) (a, b) = (if j = a then count_list ys b else 0)"
  by (induction ys) auto

lemma count_list_filter_upt:
  "count_list (filter P [0..<m]) b = (if b < m \<and> P b then 1 else 0)"
  by (induction m) auto

lemma sum_list_single:
  "(\<Sum>j\<leftarrow>[0..<n]. if j = a then g j else 0) = (if a < n then g a else (0::nat))"
  by (induction n) auto

lemma count_where_true:
  "count_list (where_true spiked_map) (a, b) =
     (if a < length spiked_map \<and> b < length (spiked_map ! a) \<and> spiked_map ! a ! b then 1 else 0)"
proof -
  have "count_list (where_true spiked_map) (a, b) =
      (\<Sum>j\<leftarrow>[0..<length spiked_map]. if j = a
          then count_list (filter (\<lambda>i. spiked_map ! j ! i) [0..<length (spiked_map ! j)]) b else 0)"
    by (simp add: where_true_def count_list_concat comp_def count_list_Pair)
  also have "\<dots> = (if a < length spiked_map
      then count_list (filter (\<lambda>i. spiked_map ! a ! i) [0..<length (spiked_map ! a)]) b else 0)"
    by (rule sum_list_single)
  finally show ?thesis by (simp add: count_list_filter_upt)
qed

lemma count_hebbian_pulses:
  "count_list (hebbian_pulses idxs) (a, b) =
     (if a \<noteq> b then count_list idxs (a, b) + count_list idxs (b, a) else 0)"
proof (induction idxs)
  case Nil
  then show ?case by (simp add: hebbian_pulses_def)
next
  case (Cons p idxs)
  obtain j i where p: "p = (j, i)" by (cases p)
  have unfold: "hebbian_pulses (p # idxs) =
      (if i \<noteq> j then [(j, i), (i, j)] else []) @ hebbian_pulses idxs"
    by (simp add: hebbian_pulses_def p)
  show ?case
    unfolding unfold count_list_append using Cons.IH by (auto simp: p)
qed

lemma pulse_entry_device:
  assumes "pulse_entry pulse m j i v self = Inr self'"
  shows "memristors self' ! a ! b =
     (if (a, b) = (j, i) then fst (pulse (memristors self ! j ! i) v ''conductance'' m)
      else memristors self ! a ! b)"
  using assms
  by (auto simp: pulse_entry_def nth_list_update split: if_splits prod.splits)

lemma hebbian_loop_devices:
  assumes "hebbian_loop pulse spiked_map idxs self = Inr self'"
    and "\<forall>(j, i) \<in> set idxs. spiked_map ! j ! i \<and> spiked_map ! i ! j"
  shows "memristors self' ! a ! b =
     (same_pulse pulse ^^ count_list (hebbian_pulses idxs) (a, b)) (memristors self ! a ! b)"
  using assms
proof (induction idxs arbitrary: self)
  case Nil
  then show ?case by (simp add: hebbian_pulses_def)
next
  case (Cons p idxs)
  obtain j i where p: "p = (j, i)" by (cases p)
  have sp: "spiked_map ! j ! i" "spiked_map ! i ! j" using Cons.prems(2) p by auto
  have rest_sp: "\<forall>(j, i) \<in> set idxs. spiked_map ! j ! i \<and> spiked_map ! i ! j"
    using Cons.prems(2) by auto
  show ?case
  proof (cases "i = j")
    case True
    then have "hebbian_loop pulse spiked_map idxs self = Inr self'"
      using Cons.prems(1) p by simp
    from Cons.IH [OF this rest_sp] True show ?thesis
      by (simp add: hebbian_pulses_def p)
  next
    case False
    from Cons.prems(1) p False sp obtain s1 s2 where
      s1: "pulse_entry pulse ''same'' j i (Boolean True) self = Inr s1"
      and s2: "pulse_entry pulse ''same'' i j (Boolean True) s1 = Inr s2"
      and rest: "hebbian_loop pulse spiked_map idxs s2 = Inr self'"
      by (auto split: sum.splits)
    have unfold: "count_list (hebbian_pulses (p # idxs)) (a, b) =
        (if (a, b) = (j, i) \<or> (a, b) = (i, j) then 1 else 0)
        + count_list (hebbian_pulses idxs) (a, b)"
      using False by (auto simp: hebbian_pulses_def p)
    have m2: "memristors s2 ! a ! b =
        (if (a, b) = (j, i) \<or> (a, b) = (i, j) then same_pulse pulse (memristors self ! a ! b)
         else memristors self ! a ! b)"
      using False pulse_entry_device [OF s1, of a b] pulse_entry_device [OF s2, of a b]
      by (auto simp: same_pulse_def)
    show ?thesis
      unfolding unfold Cons.IH [OF rest rest_sp] m2
      by (simp add: funpow_swap1)
  qed
qed

lemma find_spikes_both:
  assumes "find_spikes self x (Some x) = Inr spiked_map"
  shows "length spiked_map = length x"
    and "j < length x \<Longrightarrow> length (spiked_map ! j) = length x"
    and "j < length x \<Longrightarrow> i < length x \<Longrightarrow> spiked_map ! j ! i = (spiked (x ! i) \<and> spiked (x ! j))"
  using assms
  by (auto simp: find_spikes_def split: if_splits)

text \<open>
  C10. In every step of \<open>mHopfieldHebbian\<close> that returns and in which neurons \<open>i\<close> and \<open>j\<close>,
  \<open>i \<noteq> j\<close>, both spike, the loop pulses each of the devices \<open>memristors[j, i]\<close> and
  \<open>memristors[i, j]\<close> exactly twice, once at the entry \<open>(j, i)\<close> and once at the entry
  \<open>(i, j)\<close>, so after the step each of the two devices is the device it was, pulsed twice.
\<close>

theorem hebbian_double_pulse:
  assumes "mHopfieldHebbian_call pulse self x = Inr (self', out)"
    and "i < length x" and "j < length x" and "i \<noteq> j"
    and "spiked (x ! i)" and "spiked (x ! j)"
  shows "\<exists>spiked_map. find_spikes self x (Some x) = Inr spiked_map
      \<and> count_list (hebbian_pulses (where_true spiked_map)) (j, i) = 2
      \<and> count_list (hebbian_pulses (where_true spiked_map)) (i, j) = 2
      \<and> memristors self' ! j ! i = same_pulse pulse (same_pulse pulse (memristors self ! j ! i))
      \<and> memristors self' ! i ! j = same_pulse pulse (same_pulse pulse (memristors self ! i ! j))"
proof -
  from assms(1) obtain spiked_map self2 where
    fs: "find_spikes self x (Some x) = Inr spiked_map"
    and lp: "hebbian_loop pulse spiked_map (where_true spiked_map) self = Inr self2"
    and ro: "rule_output self2 x = Inr (self', out)"
    by (auto simp: mHopfieldHebbian_call_def split: sum.splits)
  have eq: "self' = self2" using ro by (auto simp: rule_output_def split: sum.splits)
  note sm = find_spikes_both [OF fs]
  have sym: "\<forall>(j, i) \<in> set (where_true spiked_map). spiked_map ! j ! i \<and> spiked_map ! i ! j"
    using sm by (auto simp: where_true_def)
  have c: "count_list (hebbian_pulses (where_true spiked_map)) (j, i) = 2"
    "count_list (hebbian_pulses (where_true spiked_map)) (i, j) = 2"
    using assms(2-6) sm by (simp_all add: count_hebbian_pulses count_where_true)
  have "memristors self2 ! j ! i = same_pulse pulse (same_pulse pulse (memristors self ! j ! i))"
    "memristors self2 ! i ! j = same_pulse pulse (same_pulse pulse (memristors self ! i ! j))"
    unfolding hebbian_loop_devices [OF lp sym] c by (simp_all add: numeral_2_eq_2)
  then show ?thesis using fs c eq by blast
qed

lemma hebbian_pair_example:
  "mHopfieldHebbian_call counting_pulse (crossbar 3 3) [1, 1, 0] =
     Inr ((crossbar 3 3)\<lparr>weights := [[0, 2, 0], [2, 0, 0], [0, 0, 0]],
                          memristors := [[0, 2, 0], [2, 0, 0], [0, 0, 0]]\<rparr>, [2, 2, 0])"
  by code_simp

theorem hebbian_double_pulse_witness:
  "memristors ((crossbar 3 3)\<lparr>weights := [[0, 2, 0], [2, 0, 0], [0, 0, 0]],
                          memristors := [[0, 2, 0], [2, 0, 0], [0, 0, 0]]\<rparr>) ! 1 ! 0
     = same_pulse counting_pulse (same_pulse counting_pulse (memristors (crossbar 3 3) ! 1 ! 0))
   \<and> same_pulse counting_pulse (same_pulse counting_pulse (memristors (crossbar 3 3) ! 1 ! 0)) = 2"
  using hebbian_double_pulse [where pulse = counting_pulse and self = "crossbar 3 3"
      and x = "[1, 1, 0]" and out = "[2, 2, 0]" and i = 0 and j = 1
      and self' = "(crossbar 3 3)\<lparr>weights := [[0, 2, 0], [2, 0, 0], [0, 0, 0]],
                          memristors := [[0, 2, 0], [2, 0, 0], [0, 0, 0]]\<rparr>"]
    hebbian_pair_example
  by (simp add: spiked_def np_rint_def crossbar_def same_pulse_def counting_pulse_def)

section \<open>The devices a step of \<open>SimmPES\<close> writes\<close>

lemma pulse_changes_initial: "pulse_resistance (Fin 100000000) \<noteq> Fin 100000000"
  using pulse_resistance_decreases [of 100000000] by auto

lemma masked_pulse_nth:
  assumes "same_shape msk M" and "j < length M" and "i < length (M ! j)"
  shows "masked_pulse msk M ! j ! i = (if msk ! j ! i then pulse_resistance (M ! j ! i) else M ! j ! i)"
  using assms
  by (auto simp: masked_pulse_def same_shape_def list_all2_conv_all_nth)

lemma masked_pulse_length:
  assumes "same_shape msk M"
  shows "length (masked_pulse msk M) = length M"
    and "j < length M \<Longrightarrow> length (masked_pulse msk M ! j) = length (M ! j)"
  using assms
  by (auto simp: masked_pulse_def same_shape_def list_all2_conv_all_nth)

lemma update_voltage_nth:
  assumes "j < length le" and "i < length pre"
  shows "update_voltage le pre ! j ! i = pes_delta_sign (le ! j * pre ! i) * (1 / 10)"
  using assms by (simp add: update_voltage_def np_outer_def)

lemma voltage_sign:
  "(0 < s * (1 / 10)) = (0 < (s::real))" "(s * (1 / 10) < 0) = (s < 0)"
  by (auto simp: zero_less_mult_iff mult_less_0_iff)

lemma pes_delta_sign_zero: "pes_delta_sign 0 = 0"
  by (simp add: pes_delta_sign_def)

lemma same_shape_nth:
  "same_shape A B \<Longrightarrow> length A = length B \<and> (\<forall>j < length A. length (A ! j) = length (B ! j))"
  by (auto simp: same_shape_def list_all2_conv_all_nth)

lemma update_voltage_rows:
  "length (update_voltage le pre) = length le"
  "j < length le \<Longrightarrow> length (update_voltage le pre ! j) = length pre"
  by (simp_all add: update_voltage_def np_outer_def)

lemma step_simmpes_entries:
  assumes st: "step_simmpes al pre err enc (pos, neg) = Inr (delta, pos', neg')"
    and le: "simmpes_local_error al enc err = Inr le"
    and j: "j < length pos" and i: "i < length (pos ! j)"
  shows "pos' ! j ! i = (if 0 < pes_delta_sign (le ! j * pre ! i)
                         then pulse_resistance (pos ! j ! i) else pos ! j ! i)"
    and "neg' ! j ! i = (if pes_delta_sign (le ! j * pre ! i) < 0
                         then pulse_resistance (neg ! j ! i) else neg ! j ! i)"
proof -
  let ?V = "update_voltage le pre"
  from st le have ss: "same_shape ?V pos" "same_shape ?V neg"
    and p': "pos' = masked_pulse (map (map (\<lambda>v. 0 < v)) ?V) pos"
    and n': "neg' = masked_pulse (map (map (\<lambda>v. v < 0)) ?V) neg"
    by (auto simp: step_simmpes_def Let_def split: if_splits)
  have jl: "j < length le" using same_shape_nth [OF ss(1)] j by (simp add: update_voltage_rows)
  have il: "i < length pre" using same_shape_nth [OF ss(1)] j i jl by (simp add: update_voltage_rows)
  have jn: "j < length neg" "i < length (neg ! j)"
    using same_shape_nth [OF ss(1)] same_shape_nth [OF ss(2)] j i by auto
  have jV: "j < length ?V" "i < length (?V ! j)" using jl il by (simp_all add: update_voltage_rows)
  have ssp: "same_shape (map (map (\<lambda>v. 0 < v)) ?V) pos"
    and ssn: "same_shape (map (map (\<lambda>v. v < 0)) ?V) neg"
    using ss by (auto simp: same_shape_def list_all2_conv_all_nth)
  have vpos: "(0 < ?V ! j ! i) = (0 < pes_delta_sign (le ! j * pre ! i))"
    and vneg: "(?V ! j ! i < 0) = (pes_delta_sign (le ! j * pre ! i) < 0)"
    unfolding update_voltage_nth [OF jl il] by (rule voltage_sign)+
  show "pos' ! j ! i = (if 0 < pes_delta_sign (le ! j * pre ! i)
                         then pulse_resistance (pos ! j ! i) else pos ! j ! i)"
    using masked_pulse_nth [OF ssp j i] jV vpos by (simp add: p')
  show "neg' ! j ! i = (if pes_delta_sign (le ! j * pre ! i) < 0
                         then pulse_resistance (neg ! j ! i) else neg ! j ! i)"
    using masked_pulse_nth [OF ssn jn] jV vneg by (simp add: n')
qed

lemma step_simmpes_shapes:
  assumes st: "step_simmpes al pre err enc (pos, neg) = Inr (delta, pos', neg')"
  shows "same_shape pos' pos" and "same_shape neg' neg" and "same_shape pos neg"
proof -
  from st obtain le where le: "simmpes_local_error al enc err = Inr le"
    by (auto simp: step_simmpes_def split: sum.splits)
  let ?V = "update_voltage le pre"
  from st le have ss: "same_shape ?V pos" "same_shape ?V neg"
    and p': "pos' = masked_pulse (map (map (\<lambda>v. 0 < v)) ?V) pos"
    and n': "neg' = masked_pulse (map (map (\<lambda>v. v < 0)) ?V) neg"
    by (auto simp: step_simmpes_def Let_def split: if_splits)
  have ssp: "same_shape (map (map (\<lambda>v. 0 < v)) ?V) pos"
    and ssn: "same_shape (map (map (\<lambda>v. v < 0)) ?V) neg"
    using ss by (auto simp: same_shape_def list_all2_conv_all_nth)
  show "same_shape pos' pos"
    using masked_pulse_length [OF ssp] by (auto simp: p' same_shape_def list_all2_conv_all_nth)
  show "same_shape neg' neg"
    using masked_pulse_length [OF ssn] by (auto simp: n' same_shape_def list_all2_conv_all_nth)
  show "same_shape pos neg"
    using ss by (auto simp: same_shape_def list_all2_conv_all_nth)
qed

lemma same_shape_eqI:
  assumes "same_shape A B" and "\<And>j i. j < length B \<Longrightarrow> i < length (B ! j) \<Longrightarrow> A ! j ! i = B ! j ! i"
  shows "A = B"
proof (rule nth_equalityI)
  show "length A = length B" using assms(1) by (simp add: same_shape_def)
next
  fix j assume j: "j < length A"
  then have jb: "j < length B" and len: "length (A ! j) = length (B ! j)"
    using same_shape_nth [OF assms(1)] by auto
  show "A ! j = B ! j"
    by (rule nth_equalityI) (use len assms(2) jb in auto)
qed

lemma np_dot_zero:
  assumes "list_all (\<lambda>e. e = 0) v" and "np_dot A v = Inr d"
  shows "list_all (\<lambda>y. y = 0) d"
proof -
  have z: "sum_list (map2 (*) row v) = 0" for row :: "real list"
    using assms(1)
  proof (induction row arbitrary: v)
    case Nil
    then show ?case by simp
  next
    case (Cons r row)
    then show ?case by (cases v) simp_all
  qed
  from assms(2) have "d = map (\<lambda>row. sum_list (map2 (*) row v)) A"
    by (auto simp: np_dot_def split: if_splits)
  then show ?thesis by (simp add: list_all_iff z)
qed

lemma step_simmpes_zero_error:
  assumes "list_all (\<lambda>e. e = 0) err"
    and st: "step_simmpes al pre err enc (pos, neg) = Inr (delta, pos', neg')"
  shows "pos' = pos \<and> neg' = neg"
proof -
  from st obtain le where le: "simmpes_local_error al enc err = Inr le"
    by (auto simp: step_simmpes_def split: sum.splits)
  then obtain d where d: "np_dot enc err = Inr d" "le = map (\<lambda>x. al * x) d"
    by (auto simp: simmpes_local_error_def split: sum.splits)
  have dz: "list_all (\<lambda>y. y = 0) d" using np_dot_zero [OF assms(1) d(1)] .
  note sh = step_simmpes_shapes [OF st]
  have lez: "le ! j = 0" if "j < length pos" for j
  proof -
    from st le have "same_shape (update_voltage le pre) pos"
      by (auto simp: step_simmpes_def Let_def split: if_splits)
    then have "j < length le" using that same_shape_nth by (fastforce simp: update_voltage_rows)
    then show ?thesis using dz by (simp add: d(2) list_all_iff)
  qed
  have "pos' = pos"
    by (rule same_shape_eqI [OF sh(1)])
      (simp add: step_simmpes_entries(1) [OF st le] lez pes_delta_sign_zero)
  moreover have "neg' = neg"
  proof (rule same_shape_eqI [OF sh(2)])
    fix j i assume ji: "j < length neg" "i < length (neg ! j)"
    then have "j < length pos" "i < length (pos ! j)"
      using same_shape_nth [OF sh(3)] by auto
    then show "neg' ! j ! i = neg ! j ! i"
      by (simp add: step_simmpes_entries(2) [OF st le] lez pes_delta_sign_zero)
  qed
  ultimately show ?thesis ..
qed

section \<open>The entries a step of \<open>mPES\<close> writes\<close>

lemma pulse_entry_frame:
  assumes "pulse_entry pulse m j' i' v self = Inr self'" and "(j, i) \<noteq> (j', i')"
  shows "weights self' ! j ! i = weights self ! j ! i"
    and "memristors self' ! j ! i = memristors self ! j ! i"
  using assms
  by (auto simp: pulse_entry_def nth_list_update split: if_splits prod.splits)

lemma pulse_entry_at:
  assumes "pulse_entry pulse m j i v self = Inr self'"
  shows "memristors self' ! j ! i = fst (pulse (memristors self ! j ! i) v ''conductance'' m)"
    and "weights self' ! j ! i = snd (pulse (memristors self ! j ! i) v ''conductance'' m)"
  using assms
  by (auto simp: pulse_entry_def split: if_splits prod.splits)

lemma pulse_entry_last_error:
  "pulse_entry pulse m j' i' v self = Inr self' \<Longrightarrow> last_error self' = last_error self"
  by (auto simp: pulse_entry_def split: if_splits prod.splits)

lemma pulse_loop_frame:
  assumes "pulse_loop pulse m update idxs self = Inr self'" and "(j, i) \<notin> set idxs"
  shows "weights self' ! j ! i = weights self ! j ! i \<and>
         memristors self' ! j ! i = memristors self ! j ! i"
  using assms
proof (induction idxs arbitrary: self)
  case Nil
  then show ?case by simp
next
  case (Cons p idxs)
  obtain j' i' where p: "p = (j', i')" by (cases p)
  from Cons.prems(1) p obtain v self1 where
    s1: "pulse_entry pulse m j' i' v self = Inr self1"
    and rest: "pulse_loop pulse m update idxs self1 = Inr self'"
    by (auto split: sum.splits)
  have ne: "(j, i) \<noteq> (j', i')" and nin: "(j, i) \<notin> set idxs" using Cons.prems(2) p by auto
  show ?case
    using Cons.IH [OF rest nin] pulse_entry_frame [OF s1 ne] by simp
qed

lemma pulse_loop_last_error:
  "pulse_loop pulse m update idxs self = Inr self' \<Longrightarrow> last_error self' = last_error self"
proof (induction idxs arbitrary: self)
  case Nil
  then show ?case by simp
next
  case (Cons p idxs)
  obtain j' i' where p: "p = (j', i')" by (cases p)
  from Cons.prems p obtain v self1 where
    s1: "pulse_entry pulse m j' i' v self = Inr self1"
    and rest: "pulse_loop pulse m update idxs self1 = Inr self'"
    by (auto split: sum.splits)
  show ?case using Cons.IH [OF rest] pulse_entry_last_error [OF s1] by simp
qed

text \<open>An entry that the loop visits once is pulsed once, with the update read at it.\<close>

lemma pulse_loop_entry:
  assumes "pulse_loop pulse m update idxs self = Inr self'"
    and "distinct idxs" and "(j, i) \<in> set idxs"
  shows "\<exists>v. update j i = Inr v
           \<and> memristors self' ! j ! i = fst (pulse (memristors self ! j ! i) v ''conductance'' m)
           \<and> weights self' ! j ! i = snd (pulse (memristors self ! j ! i) v ''conductance'' m)"
  using assms
proof (induction idxs arbitrary: self)
  case Nil
  then show ?case by simp
next
  case (Cons p idxs)
  obtain j' i' where p: "p = (j', i')" by (cases p)
  from Cons.prems(1) p obtain v self1 where
    upd: "update j' i' = Inr v"
    and s1: "pulse_entry pulse m j' i' v self = Inr self1"
    and rest: "pulse_loop pulse m update idxs self1 = Inr self'"
    by (auto split: sum.splits)
  show ?case
  proof (cases "(j, i) = (j', i')")
    case True
    then have "(j, i) \<notin> set idxs" using Cons.prems(2) p by auto
    from pulse_loop_frame [OF rest this] pulse_entry_at [OF s1] upd True
    show ?thesis by auto
  next
    case False
    then have "(j, i) \<in> set idxs" using Cons.prems(3) p by auto
    moreover have "distinct idxs" using Cons.prems(2) by simp
    ultimately show ?thesis
      using Cons.IH [OF rest] pulse_entry_frame [OF s1 False] by simp
  qed
qed

lemma where_true_iff:
  "(j, i) \<in> set (where_true spiked_map) \<longleftrightarrow>
     j < length spiked_map \<and> i < length (spiked_map ! j) \<and> spiked_map ! j ! i"
  by (auto simp: where_true_def)

lemma distinct_count_le_1:
  "(\<And>x. count_list xs x \<le> 1) \<Longrightarrow> distinct xs"
proof (induction xs)
  case Nil
  then show ?case by simp
next
  case (Cons y ys)
  have "count_list ys x \<le> 1" for x
    using Cons.prems [of x] by (simp split: if_splits)
  then have "distinct ys" by (rule Cons.IH)
  moreover have "y \<notin> set ys"
  proof
    assume "y \<in> set ys"
    then have "count_list ys y \<noteq> 0" using count_list_0_iff [of ys y] by simp
    then have "0 < count_list ys y" by simp
    then show False using Cons.prems [of y] by simp
  qed
  ultimately show ?case by simp
qed

lemma distinct_where_true: "distinct (where_true spiked_map)"
proof (rule distinct_count_le_1)
  fix p :: "nat \<times> nat"
  obtain a b where "p = (a, b)" by (cases p)
  then show "count_list (where_true spiked_map) p \<le> 1"
    by (simp add: count_where_true)
qed

lemma find_spikes_pre_only:
  assumes "find_spikes self input_activities None = Inr spiked_map"
  shows "(j, i) \<in> set (where_true spiked_map) \<longleftrightarrow>
     j < output_size self \<and> i < input_size self \<and> spiked (input_activities ! i)"
  using assms
  by (auto simp: find_spikes_def where_true_iff split: if_splits)

text \<open>
  What a step of \<open>mPES\<close> that returns has done: it has squashed the error slice, scaled
  the product with the encoders by \<open>learning_rate * dt / input_size\<close>, kept the error in
  \<open>last_error\<close>, pulsed every entry of a spiking column once with the local error of its
  row, and left every other entry as it was.
\<close>

lemma mPES_call_step:
  assumes "mPES_call pulse encoders self x = Inr (self', out)"
  shows "\<exists>error local_error.
      squash_error (drop (input_size self) x) = Inr error
      \<and> mPES_local_error (learning_rate self * dt self / real (input_size self)) encoders error
            = Inr local_error
      \<and> last_error self' = Some error
      \<and> (\<forall>j i. j < output_size self \<and> i < input_size self \<and> spiked (x ! i) \<longrightarrow>
            j < length local_error
            \<and> memristors self' ! j ! i
                = fst (pulse (memristors self ! j ! i) (local_error ! j) ''conductance'' ''inverse'')
            \<and> weights self' ! j ! i
                = snd (pulse (memristors self ! j ! i) (local_error ! j) ''conductance'' ''inverse''))
      \<and> (\<forall>j i. \<not> (j < output_size self \<and> i < input_size self \<and> spiked (x ! i)) \<longrightarrow>
            memristors self' ! j ! i = memristors self ! j ! i
            \<and> weights self' ! j ! i = weights self ! j ! i)"
proof -
  let ?n = "input_size self"
  from assms obtain error local_error spiked_map self2 where
    sq: "squash_error (drop ?n x) = Inr error"
    and le: "mPES_local_error (learning_rate self * dt self / real ?n) encoders error
              = Inr local_error"
    and fs: "find_spikes (self\<lparr>last_error := Some error\<rparr>) (take ?n x) None = Inr spiked_map"
    and lp: "pulse_loop pulse ''inverse'' (\<lambda>j i. vector_entry local_error j)
              (where_true spiked_map) (self\<lparr>last_error := Some error\<rparr>) = Inr self2"
    and ro: "rule_output self2 (take ?n x) = Inr (self', out)"
    by (auto simp: mPES_call_def Let_def split: sum.splits if_splits)
  have eq: "self' = self2" using ro by (auto simp: rule_output_def split: sum.splits)
  have gate: "(j, i) \<in> set (where_true spiked_map) \<longleftrightarrow>
      j < output_size self \<and> i < ?n \<and> spiked (x ! i)" for j i
    using find_spikes_pre_only [OF fs, of j i] by auto
  have last: "last_error self' = Some error"
    using pulse_loop_last_error [OF lp] eq by simp
  have pulsed: "j < length local_error
            \<and> memristors self' ! j ! i
                = fst (pulse (memristors self ! j ! i) (local_error ! j) ''conductance'' ''inverse'')
            \<and> weights self' ! j ! i
                = snd (pulse (memristors self ! j ! i) (local_error ! j) ''conductance'' ''inverse'')"
    if "j < output_size self \<and> i < ?n \<and> spiked (x ! i)" for j i
  proof -
    have "(j, i) \<in> set (where_true spiked_map)" using that gate by simp
    from pulse_loop_entry [OF lp distinct_where_true this]
    obtain v where v: "vector_entry local_error j = Inr v"
      and m: "memristors self2 ! j ! i
                = fst (pulse (memristors self ! j ! i) v ''conductance'' ''inverse'')"
      and w: "weights self2 ! j ! i
                = snd (pulse (memristors self ! j ! i) v ''conductance'' ''inverse'')"
      by auto
    from v have "j < length local_error" "v = local_error ! j"
      by (auto simp: vector_entry_def split: if_splits)
    then show ?thesis using m w eq by simp
  qed
  have frame: "memristors self' ! j ! i = memristors self ! j ! i
            \<and> weights self' ! j ! i = weights self ! j ! i"
    if "\<not> (j < output_size self \<and> i < ?n \<and> spiked (x ! i))" for j i
  proof -
    have "(j, i) \<notin> set (where_true spiked_map)" using that gate by simp
    from pulse_loop_frame [OF lp this] eq show ?thesis by simp
  qed
  show ?thesis using sq le last pulsed frame by blast
qed

text \<open>
  C2 (amended). In \<open>mPES.__call__\<close> of \<open>MemristorLearningRules.py\<close>, in every step that
  returns and for every error, an entry \<open>(j, i)\<close> of the crossbar is pulsed, its device
  replaced by the pulsed device and its weight by the number the pulse returns, when
  \<open>round(pre[i])\<close> is not zero, and every other entry has exactly the weight and the device
  it had before the step.
\<close>

theorem supervised_gating:
  "mPES_call pulse encoders self x = Inr (self', out) \<longrightarrow>
     (j < output_size self \<and> i < input_size self \<and> spiked (x ! i) \<longrightarrow>
        (\<exists>v. memristors self' ! j ! i
                = fst (pulse (memristors self ! j ! i) v ''conductance'' ''inverse'')
           \<and> weights self' ! j ! i
                = snd (pulse (memristors self ! j ! i) v ''conductance'' ''inverse'')))
     \<and> (\<not> (j < output_size self \<and> i < input_size self \<and> spiked (x ! i)) \<longrightarrow>
        memristors self' ! j ! i = memristors self ! j ! i
        \<and> weights self' ! j ! i = weights self ! j ! i)"
proof
  assume "mPES_call pulse encoders self x = Inr (self', out)"
  from mPES_call_step [OF this]
  show "(j < output_size self \<and> i < input_size self \<and> spiked (x ! i) \<longrightarrow>
        (\<exists>v. memristors self' ! j ! i
                = fst (pulse (memristors self ! j ! i) v ''conductance'' ''inverse'')
           \<and> weights self' ! j ! i
                = snd (pulse (memristors self ! j ! i) v ''conductance'' ''inverse'')))
     \<and> (\<not> (j < output_size self \<and> i < input_size self \<and> spiked (x ! i)) \<longrightarrow>
        memristors self' ! j ! i = memristors self ! j ! i
        \<and> weights self' ! j ! i = weights self ! j ! i)"
    by blast
qed

lemma quarter_not_spiked: "\<not> spiked (1 / 4)"
  by (simp add: spiked_def np_rint_def)

lemma simmpes_quarter_example:
  "step_simmpes (- 1) [1 / 4] [- 1] [[1]] ([[Fin 100000000]], [[Fin 100000000]])
       = Inr ([[np_sub (resistance2conductance (pulse_resistance (Fin 100000000)))
                       (resistance2conductance (Fin 100000000))]],
              [[pulse_resistance (Fin 100000000)]], [[Fin 100000000]])"
  by (simp add: step_simmpes_def simmpes_local_error_def np_dot_def update_voltage_def
      pes_delta_sign_def np_outer_def same_shape_def masked_pulse_def Let_def)

text \<open>
  In \<open>SimmPES\<close> an activity of \<open>1 / 4\<close>, which rounds to zero, with a positive local error
  pulses the positive device (\<open>alpha = -1\<close> is \<open>make_step\<close> with learning rate, timestep and
  number of neurons \<open>1\<close>).
\<close>

theorem supervised_gating_counterexample:
  "\<not> spiked (1 / 4)
   \<and> step_simmpes (- 1) [1 / 4] [- 1] [[1]] ([[Fin 100000000]], [[Fin 100000000]])
       = Inr ([[np_sub (resistance2conductance (pulse_resistance (Fin 100000000)))
                       (resistance2conductance (Fin 100000000))]],
              [[pulse_resistance (Fin 100000000)]], [[Fin 100000000]])
   \<and> pulse_resistance (Fin 100000000) \<noteq> Fin 100000000"
  using quarter_not_spiked simmpes_quarter_example pulse_changes_initial by simp

lemma pes_gated_example:
  "mPES_call counting_pulse [[1], [1]] (crossbar 2 3) [1, 1, 0, 1] =
     Inr ((crossbar 2 3)\<lparr>last_error := Some (Array [1]), weights := [[1, 1, 0], [1, 1, 0]],
                          memristors := [[1, 1, 0], [1, 1, 0]]\<rparr>, [2, 2])"
  by code_simp

theorem supervised_gating_witness:
  "(\<exists>v. memristors ((crossbar 2 3)\<lparr>last_error := Some (Array [1]),
              weights := [[1, 1, 0], [1, 1, 0]], memristors := [[1, 1, 0], [1, 1, 0]]\<rparr>) ! 0 ! 0
          = fst (counting_pulse (memristors (crossbar 2 3) ! 0 ! 0) v ''conductance'' ''inverse''))
   \<and> memristors ((crossbar 2 3)\<lparr>last_error := Some (Array [1]),
              weights := [[1, 1, 0], [1, 1, 0]], memristors := [[1, 1, 0], [1, 1, 0]]\<rparr>) ! 0 ! 2
        = memristors (crossbar 2 3) ! 0 ! 2"
  using
    supervised_gating [where pulse = counting_pulse and encoders = "[[1], [1]]"
      and self = "crossbar 2 3" and x = "[1, 1, 0, 1]" and out = "[2, 2]" and i = 0 and j = 0
      and self' = "(crossbar 2 3)\<lparr>last_error := Some (Array [1]),
                      weights := [[1, 1, 0], [1, 1, 0]], memristors := [[1, 1, 0], [1, 1, 0]]\<rparr>"]
    supervised_gating [where pulse = counting_pulse and encoders = "[[1], [1]]"
      and self = "crossbar 2 3" and x = "[1, 1, 0, 1]" and out = "[2, 2]" and i = 2 and j = 0
      and self' = "(crossbar 2 3)\<lparr>last_error := Some (Array [1]),
                      weights := [[1, 1, 0], [1, 1, 0]], memristors := [[1, 1, 0], [1, 1, 0]]\<rparr>"]
    pes_gated_example
  by (auto simp: crossbar_def spiked_def np_rint_def)

section \<open>Small errors\<close>

lemma error_threshold_above: "1 / 100000 < error_threshold"
  by (simp add: error_threshold_def)

lemma squash_small_error: "\<bar>e\<bar> < 1 / 100000 \<Longrightarrow> squash_error [e] = Inr (Scalar 0)"
  using error_threshold_above by (simp add: squash_error_def)

lemma simmpes_small_error_example:
  "step_simmpes (- 1) [1] [1 / 1048576] [[1]] ([[Fin 100000000]], [[Fin 100000000]])
       = Inr ([[np_sub (resistance2conductance (Fin 100000000))
                       (resistance2conductance (pulse_resistance (Fin 100000000)))]],
              [[Fin 100000000]], [[pulse_resistance (Fin 100000000)]])"
  by (simp add: step_simmpes_def simmpes_local_error_def np_dot_def update_voltage_def
      pes_delta_sign_def np_outer_def same_shape_def masked_pulse_def Let_def)

text \<open>
  In \<open>SimmPES\<close> an error of \<open>2 ** -20\<close>, below the threshold, gives a local error that is not
  zero, and the negative device is pulsed.
\<close>

theorem error_squashing_counterexample:
  "\<bar>1 / 1048576\<bar> < (1 / 100000 :: real)
   \<and> simmpes_local_error (- 1) [[1]] [1 / 1048576] = Inr [- (1 / 1048576)]
   \<and> step_simmpes (- 1) [1] [1 / 1048576] [[1]] ([[Fin 100000000]], [[Fin 100000000]])
       = Inr ([[np_sub (resistance2conductance (Fin 100000000))
                       (resistance2conductance (pulse_resistance (Fin 100000000)))]],
              [[Fin 100000000]], [[pulse_resistance (Fin 100000000)]])
   \<and> pulse_resistance (Fin 100000000) \<noteq> Fin 100000000"
  using simmpes_small_error_example pulse_changes_initial
  by (simp add: simmpes_local_error_def np_dot_def)

text \<open>
  C3 (amended). In \<open>mPES.__call__\<close> of \<open>MemristorLearningRules.py\<close>, in every step that
  returns and whose one-element error has a magnitude strictly below \<open>1e-5\<close>, the error is
  replaced by \<open>0\<close> and kept so in \<open>last_error\<close>, and the local error that every pulsed entry
  receives is exactly zero, the row of its encoders times \<open>0\<close>; the entries of spiking
  columns are still pulsed, with that zero. \<open>SimmPES\<close> has no threshold: there both device
  matrices are unchanged by a step whose error is exactly zero.
\<close>

theorem error_squashing:
  "(\<bar>e\<bar> < 1 / 100000 \<and> drop (input_size self) x = [e]
        \<and> mPES_call pulse encoders self x = Inr (self', out)
      \<longrightarrow> last_error self' = Some (Scalar 0)
          \<and> (j < output_size self \<and> i < input_size self \<and> spiked (x ! i) \<longrightarrow>
                j < length encoders
                \<and> memristors self' ! j ! i
                    = fst (pulse (memristors self ! j ! i)
                             (Array (map (\<lambda>y. 0) (encoders ! j))) ''conductance'' ''inverse'')
                \<and> weights self' ! j ! i
                    = snd (pulse (memristors self ! j ! i)
                             (Array (map (\<lambda>y. 0) (encoders ! j))) ''conductance'' ''inverse'')))
   \<and> (list_all (\<lambda>e. e = 0) error
        \<and> step_simmpes al pre_filtered error enc (pos, neg) = Inr (delta, pos', neg')
      \<longrightarrow> pos' = pos \<and> neg' = neg)"
proof -
  have squashed: "last_error self' = Some (Scalar 0)
          \<and> (j < output_size self \<and> i < input_size self \<and> spiked (x ! i) \<longrightarrow>
                j < length encoders
                \<and> memristors self' ! j ! i
                    = fst (pulse (memristors self ! j ! i)
                             (Array (map (\<lambda>y. 0) (encoders ! j))) ''conductance'' ''inverse'')
                \<and> weights self' ! j ! i
                    = snd (pulse (memristors self ! j ! i)
                             (Array (map (\<lambda>y. 0) (encoders ! j))) ''conductance'' ''inverse''))"
    if a: "\<bar>e\<bar> < 1 / 100000 \<and> drop (input_size self) x = [e]
        \<and> mPES_call pulse encoders self x = Inr (self', out)"
  proof -
    from a have call: "mPES_call pulse encoders self x = Inr (self', out)" by simp
    from mPES_call_step [OF call] obtain error local_error where
      sq: "squash_error (drop (input_size self) x) = Inr error"
      and le: "mPES_local_error (learning_rate self * dt self / real (input_size self))
                 encoders error = Inr local_error"
      and last: "last_error self' = Some error"
      and pulsed: "\<forall>j i. j < output_size self \<and> i < input_size self \<and> spiked (x ! i) \<longrightarrow>
            j < length local_error
            \<and> memristors self' ! j ! i
                = fst (pulse (memristors self ! j ! i) (local_error ! j) ''conductance'' ''inverse'')
            \<and> weights self' ! j ! i
                = snd (pulse (memristors self ! j ! i) (local_error ! j) ''conductance'' ''inverse'')"
      by blast
    have err: "error = Scalar 0" using sq a squash_small_error [of e] by simp
    have le': "local_error = map (\<lambda>row. Array (map (\<lambda>y. 0) row)) encoders"
      using le by (simp add: err mPES_local_error_def)
    have len: "length local_error = length encoders" by (simp add: le')
    have nth: "local_error ! j = Array (map (\<lambda>y. 0) (encoders ! j))" if "j < length encoders"
      using that by (simp add: le')
    show ?thesis using last err pulsed len nth by auto
  qed
  have zero: "pos' = pos \<and> neg' = neg"
    if "list_all (\<lambda>e. e = 0) error
        \<and> step_simmpes al pre_filtered error enc (pos, neg) = Inr (delta, pos', neg')"
    using that step_simmpes_zero_error by blast
  show ?thesis using squashed zero by blast
qed

lemma pes_squashed_example:
  "mPES_call counting_pulse [[1], [1]] (crossbar 2 3) [1, 1, 0, 1 / 1048576] =
     Inr ((crossbar 2 3)\<lparr>last_error := Some (Scalar 0), weights := [[1, 1, 0], [1, 1, 0]],
                          memristors := [[1, 1, 0], [1, 1, 0]]\<rparr>, [2, 2])"
  by code_simp

lemma simmpes_zero_error_example:
  "step_simmpes (- 1) [1] [0] [[1]] ([[Fin 100000000]], [[Fin 100000000]])
       = Inr ([[np_sub (resistance2conductance (Fin 100000000))
                       (resistance2conductance (Fin 100000000))]],
              [[Fin 100000000]], [[Fin 100000000]])"
  by (simp add: step_simmpes_def simmpes_local_error_def np_dot_def update_voltage_def
      pes_delta_sign_def np_outer_def same_shape_def masked_pulse_def Let_def)

theorem error_squashing_witness:
  "\<bar>1 / 1048576\<bar> < (1 / 100000 :: real)
   \<and> last_error ((crossbar 2 3)\<lparr>last_error := Some (Scalar 0), weights := [[1, 1, 0], [1, 1, 0]],
                          memristors := [[1, 1, 0], [1, 1, 0]]\<rparr>) = Some (Scalar 0)
   \<and> memristors ((crossbar 2 3)\<lparr>last_error := Some (Scalar 0), weights := [[1, 1, 0], [1, 1, 0]],
                          memristors := [[1, 1, 0], [1, 1, 0]]\<rparr>) ! 0 ! 0
        = fst (counting_pulse (memristors (crossbar 2 3) ! 0 ! 0)
                 (Array (map (\<lambda>y. 0) ([[1], [1]] ! 0))) ''conductance'' ''inverse'')
   \<and> list_all (\<lambda>e. e = 0) [0 :: real]"
  using
    error_squashing [where e = "1 / 1048576" and encoders = "[[1], [1]]"
      and self = "crossbar 2 3" and x = "[1, 1, 0, 1 / 1048576]" and pulse = counting_pulse
      and out = "[2, 2]" and i = 0 and j = 0
      and self' = "(crossbar 2 3)\<lparr>last_error := Some (Scalar 0),
                      weights := [[1, 1, 0], [1, 1, 0]], memristors := [[1, 1, 0], [1, 1, 0]]\<rparr>"
      and error = "[0]" and al = "- 1" and pre_filtered = "[1]" and enc = "[[1]]"
      and pos = "[[Fin 100000000]]" and neg = "[[Fin 100000000]]"
      and pos' = "[[Fin 100000000]]" and neg' = "[[Fin 100000000]]"
      and delta = "[[np_sub (resistance2conductance (Fin 100000000))
                       (resistance2conductance (Fin 100000000))]]"]
    pes_squashed_example simmpes_zero_error_example
  by (simp add: crossbar_def spiked_def np_rint_def)

section \<open>The scale of the local error\<close>

text \<open>
  With learning rate, timestep, number of neurons, encoder and error all \<open>1\<close>, the local
  error of \<open>SimmPES\<close> is \<open>-1\<close>.
\<close>

theorem local_error_scale_counterexample:
  "make_step_alpha 1 1 1 = Inr (- 1)
   \<and> np_dot [[1]] [1] = Inr [1]
   \<and> simmpes_local_error (- 1) [[1]] [1] = Inr [- 1]
   \<and> [- 1 :: real] \<noteq> [1 * 1 / real 1 * 1]"
  by (simp add: make_step_alpha_def simmpes_local_error_def np_dot_def)

text \<open>
  C6 (amended). In \<open>mPES.__call__\<close> of \<open>MemristorLearningRules.py\<close>, in every step that
  returns and whose one-element error is above the threshold \<open>10**-5\<close>, the local error
  that a pulsed entry \<open>(j, i)\<close> receives is
  \<open>(learning_rate * dt / input_size) * (encoders[j] . error)\<close>, for every encoder matrix.
  In \<open>SimmPES\<close> the local error is \<open>(- learning_rate * dt / n_neurons) * (encoders . error)\<close>,
  for every error vector and encoder matrix: there the scale factor is negative.
\<close>

theorem local_error_scale:
  "(error_threshold < \<bar>e\<bar> \<and> drop (input_size self) x = [e]
        \<and> mPES_call pulse encoders self x = Inr (self', out)
        \<and> j < output_size self \<and> i < input_size self \<and> spiked (x ! i)
      \<longrightarrow> j < length encoders
          \<and> memristors self' ! j ! i
              = fst (pulse (memristors self ! j ! i)
                       (Scalar (learning_rate self * dt self / real (input_size self)
                                * sum_list (map2 (*) (encoders ! j) [e])))
                       ''conductance'' ''inverse'')
          \<and> weights self' ! j ! i
              = snd (pulse (memristors self ! j ! i)
                       (Scalar (learning_rate self * dt self / real (input_size self)
                                * sum_list (map2 (*) (encoders ! j) [e])))
                       ''conductance'' ''inverse''))
   \<and> (make_step_alpha lr step_dt n_neurons = Inr al \<and> np_dot enc error = Inr d' \<longrightarrow>
      simmpes_local_error al enc error
          = Inr (map (\<lambda>y. - (lr * step_dt / real n_neurons) * y) d'))"
proof -
  let ?a = "learning_rate self * dt self / real (input_size self)"
  have scaled: "j < length encoders
          \<and> memristors self' ! j ! i
              = fst (pulse (memristors self ! j ! i)
                       (Scalar (?a * sum_list (map2 (*) (encoders ! j) [e])))
                       ''conductance'' ''inverse'')
          \<and> weights self' ! j ! i
              = snd (pulse (memristors self ! j ! i)
                       (Scalar (?a * sum_list (map2 (*) (encoders ! j) [e])))
                       ''conductance'' ''inverse'')"
    if a: "error_threshold < \<bar>e\<bar> \<and> drop (input_size self) x = [e]
        \<and> mPES_call pulse encoders self x = Inr (self', out)
        \<and> j < output_size self \<and> i < input_size self \<and> spiked (x ! i)"
  proof -
    from a have call: "mPES_call pulse encoders self x = Inr (self', out)" by simp
    from mPES_call_step [OF call] obtain error local_error where
      sq: "squash_error (drop (input_size self) x) = Inr error"
      and le: "mPES_local_error ?a encoders error = Inr local_error"
      and pulsed: "\<forall>j i. j < output_size self \<and> i < input_size self \<and> spiked (x ! i) \<longrightarrow>
            j < length local_error
            \<and> memristors self' ! j ! i
                = fst (pulse (memristors self ! j ! i) (local_error ! j) ''conductance'' ''inverse'')
            \<and> weights self' ! j ! i
                = snd (pulse (memristors self ! j ! i) (local_error ! j) ''conductance'' ''inverse'')"
      by blast
    have err: "error = Array [e]" using sq a by (simp add: squash_error_def)
    have le': "local_error = map (\<lambda>row. Scalar (?a * sum_list (map2 (*) row [e]))) encoders"
      using le by (auto simp: err mPES_local_error_def np_dot_def split: if_splits)
    have len: "length local_error = length encoders" by (simp add: le')
    have nth: "local_error ! j = Scalar (?a * sum_list (map2 (*) (encoders ! j) [e]))"
      if "j < length encoders"
      using that by (simp add: le')
    show ?thesis using a pulsed len nth by auto
  qed
  have simm: "simmpes_local_error al enc error
          = Inr (map (\<lambda>y. - (lr * step_dt / real n_neurons) * y) d')"
    if "make_step_alpha lr step_dt n_neurons = Inr al \<and> np_dot enc error = Inr d'"
    using that
    by (auto simp: make_step_alpha_def simmpes_local_error_def split: if_splits)
  show ?thesis using scaled simm by blast
qed

theorem local_error_scale_witness:
  "error_threshold < \<bar>1 :: real\<bar>
   \<and> memristors ((crossbar 2 3)\<lparr>last_error := Some (Array [1]),
              weights := [[1, 1, 0], [1, 1, 0]], memristors := [[1, 1, 0], [1, 1, 0]]\<rparr>) ! 0 ! 0
        = fst (counting_pulse (memristors (crossbar 2 3) ! 0 ! 0)
                 (Scalar (learning_rate (crossbar 2 3) * dt (crossbar 2 3)
                            / real (input_size (crossbar 2 3))
                          * sum_list (map2 (*) ([[1], [1]] ! 0) [1])))
                 ''conductance'' ''inverse'')
   \<and> make_step_alpha 1 1 3 = Inr (- 1 / 3)
   \<and> simmpes_local_error (- 1 / 3) [[1], [2]] [1] = Inr [- 1 / 3, - 2 / 3]"
  using
    local_error_scale [where e = 1 and encoders = "[[1], [1]]"
      and self = "crossbar 2 3" and x = "[1, 1, 0, 1]" and pulse = counting_pulse
      and out = "[2, 2]" and i = 0 and j = 0
      and self' = "(crossbar 2 3)\<lparr>last_error := Some (Array [1]),
                      weights := [[1, 1, 0], [1, 1, 0]], memristors := [[1, 1, 0], [1, 1, 0]]\<rparr>"
      and lr = 1 and step_dt = 1 and n_neurons = 3 and al = "- 1 / 3"
      and enc = "[[1], [2]]" and error = "[1]" and d' = "[1, 2]"]
    pes_gated_example
  by (simp add: np_dot_def make_step_alpha_def crossbar_def spiked_def np_rint_def
      error_threshold_def)

end
